theory Spec2Isabelle
  imports
    Main
    "HOL-Library.Word"
    "HOL-Library.Signed_Division"
    "HOL-Library.Char_ord"
    "HOL-Library.List_Lexorder"
begin

unbundle bit_operations_syntax

section \<open>C strings and small output helpers\<close>

text \<open>
  A C string is modelled by the list of its characters before the terminating NUL.
  Reading the character at index \<open>length s\<close> yields the terminator; a pointer into the
  buffer at offset \<open>n\<close> is the suffix \<open>drop n s\<close>.
\<close>

definition NUL :: char where
  "NUL = CHR 0x00"

definition newline :: char where
  "newline = CHR 0x0A"

definition c_char_at :: "string \<Rightarrow> nat \<Rightarrow> char" where
  "c_char_at buf i = (if i < length buf then buf ! i else NUL)"

text \<open>Decimal rendering of an unsigned number, as \<open>operator<<\<close> does for \<open>unit_type\<close>.\<close>

definition digit_char :: "nat \<Rightarrow> char" where
  "digit_char d = char_of (48 + d)"

function dec_string :: "nat \<Rightarrow> string" where
  "dec_string n = (if n < 10 then [digit_char n] else dec_string (n div 10) @ [digit_char (n mod 10)])"
  by pat_completeness auto
termination
  by (relation "measure (\<lambda>n. n)") auto

declare dec_string.simps [simp del]

text \<open>\<open>std::setfill('0')\<close> with \<open>std::setw(w)\<close>: pad on the left up to width \<open>w\<close>.\<close>

definition setw_zero :: "nat \<Rightarrow> string \<Rightarrow> string" where
  "setw_zero w s = replicate (w - length s) (CHR ''0'') @ s"

section \<open>bsm\_trace: the base class of all traces\<close>

definition BSM_TRACE_ORIG :: nat where "BSM_TRACE_ORIG = 0"
definition BSM_TRACE_VAL :: nat where "BSM_TRACE_VAL = 1"

definition BSM_TRIGGER_VAL_POS :: nat where "BSM_TRIGGER_VAL_POS = 0"
definition BSM_TRIGGER_VAL_NEG :: nat where "BSM_TRIGGER_VAL_NEG = 1"
definition BSM_TRIGGER_VAL_BOTH :: nat where "BSM_TRIGGER_VAL_BOTH = 2"
definition BSM_TRIGGER_VAL_NONE :: nat where "BSM_TRIGGER_VAL_NONE = 3"

definition BT_VCD :: nat where "BT_VCD = 0"
definition BT_SIMPLE :: nat where "BT_SIMPLE = 1"

text \<open>
  \<open>bsm_trace::strip_leading_bits\<close>. The \<open>while\<close> loop advances \<open>position\<close> as long as the
  character under it equals \<open>first_char\<close>; it stops at the terminator at the latest,
  because \<open>first_char\<close> is one of \<open>0\<close>, \<open>x\<close>, \<open>z\<close> when the loop is reached.
\<close>

function skip_first_char :: "char \<Rightarrow> string \<Rightarrow> nat \<Rightarrow> nat" where
  "skip_first_char first_char buf position =
     (if position < length buf \<and> buf ! position = first_char
      then skip_first_char first_char buf (Suc position)
      else position)"
  by pat_completeness auto
termination
  by (relation "measure (\<lambda>(c, buf, position). length buf - position)") auto

declare skip_first_char.simps [simp del]

definition strip_leading_bits :: "string \<Rightarrow> string" where
  "strip_leading_bits originalbuf =
     (if length originalbuf < 2 \<or>
         (c_char_at originalbuf 0 \<noteq> CHR ''z'' \<and> c_char_at originalbuf 0 \<noteq> CHR ''x''
          \<and> c_char_at originalbuf 0 \<noteq> CHR ''0'')
      then originalbuf
      else
        let first_char = c_char_at originalbuf 0;
            position = skip_first_char first_char originalbuf 0
        in if first_char = CHR ''0'' \<and> c_char_at originalbuf position = CHR ''1''
           then drop position originalbuf
           else drop (position - 1) originalbuf)"

text \<open>
  The traced objects live outside the trace (each trace holds a reference). Their
  current values are read from an object store, one component per traced type.
\<close>

type_synonym objref = nat

record objects =
  bv_objects :: "objref \<Rightarrow> string"
  event_trigger_stamp :: "objref \<Rightarrow> 64 word"
  bool_objects :: "objref \<Rightarrow> bool"
  uint64_objects :: "objref \<Rightarrow> 64 word"
  sc_time_objects :: "objref \<Rightarrow> 64 word"
  bsm_string :: "objref \<Rightarrow> string"
  double_objects :: "objref \<Rightarrow> 64 word"
  printf_16g :: "64 word \<Rightarrow> string"

text \<open>
  A traced \<open>double\<close> is held as its 64 bits (IEEE 754 binary64): sign, eleven exponent
  bits, fifty-two fraction bits. The store also carries \<open>printf_16g\<close>, the C library's
  text for a double under the conversion \<open>%.16g\<close>, taken as given. The comparisons of
  the language on doubles: a NaN (all exponent bits set, fraction not zero) is unequal to
  everything, itself included, and neither less nor greater than anything; all other
  values compare by sign and magnitude, the two zeros being equal.
\<close>

definition isnan :: "64 word \<Rightarrow> bool" where
  "isnan x = (x AND 0x7FFFFFFFFFFFFFFF > 0x7FF0000000000000)"

definition double_key :: "64 word \<Rightarrow> int" where
  "double_key x =
     (if bit x 63 then - uint (x AND 0x7FFFFFFFFFFFFFFF) else uint (x AND 0x7FFFFFFFFFFFFFFF))"

definition double_ne :: "64 word \<Rightarrow> 64 word \<Rightarrow> bool" where
  "double_ne x y = (isnan x \<or> isnan y \<or> double_key x \<noteq> double_key y)"

definition double_gt :: "64 word \<Rightarrow> 64 word \<Rightarrow> bool" where
  "double_gt x y = (\<not> isnan x \<and> \<not> isnan y \<and> double_key x > double_key y)"

definition double_lt :: "64 word \<Rightarrow> 64 word \<Rightarrow> bool" where
  "double_lt x y = (\<not> isnan x \<and> \<not> isnan y \<and> double_key x < double_key y)"

text \<open>
  The derived classes modelled: \<open>bsm_T_trace\<close> (vectors \<open>sc_bv_base\<close>, \<open>sc_lv_base\<close>,
  held as their \<open>to_string()\<close> text), \<open>bsm_sc_event_trace\<close>, \<open>bsm_bool_trace\<close> and
  \<open>bsm_uint64_trace\<close> (two of the classes whose \<open>changed()\<close> is \<open>TRACE_CHANGED_IMPLEMENT\<close>),
  \<open>bsm_sc_time_trace\<close> (derived from \<open>bsm_uint64_trace\<close>, its base reference bound to
  the member \<open>shadow_object\<close>), \<open>bsm_interface_trace\<close>, and \<open>bsm_double_trace\<close>, a class
  with the same macro whose value type is not totally ordered (\<open>bsm_float_trace\<close> is the
  same text over \<open>float\<close>). Each constructor carries the object reference followed by the
  class's own members.
\<close>

datatype trace_body =
    T_trace objref string
  | Sc_event_trace objref "64 word"
  | Bool_trace objref bool
  | Uint64_trace objref "64 word" "64 word"
  | Sc_time_trace objref "64 word" "64 word" "64 word"
  | Interface_trace objref string char
  | Double_trace objref "64 word"

record trace =
  trace_name :: string
  bsm_name :: string
  bsm_var_typ_name :: string
  bit_width :: int
  bsm_trace_type :: nat
  bsm_trigger_type :: nat
  bsm_trace_print_type :: nat
  body :: trace_body

definition is_print_vcd :: "trace \<Rightarrow> bool" where
  "is_print_vcd t = (bsm_trace_print_type t = BT_VCD)"

definition compose_data_line :: "trace \<Rightarrow> string \<Rightarrow> string" where
  "compose_data_line t rawdata =
     (if bit_width t = 0 then []
      else if bit_width t = 1 then
        (case rawdata of [] \<Rightarrow> [] | c # cs \<Rightarrow> c # bsm_name t)
      else [CHR ''b''] @ strip_leading_bits rawdata @ [CHR '' ''] @ bsm_name t)"

definition compose_line :: "trace \<Rightarrow> string \<Rightarrow> string" where
  "compose_line t data =
     (if bit_width t = 0 then []
      else if bit_width t = 1 then data @ bsm_name t
      else [CHR ''b''] @ strip_leading_bits data @ [CHR '' ''] @ bsm_name t)"

text \<open>
  The macro \<open>TRACE_CHANGED_IMPLEMENT\<close>, over any totally ordered value type. In its
  \<open>else\<close> branch it calls \<open>write(NULL)\<close>, which in every class using the macro prints
  nothing and assigns \<open>old_value = object\<close>. The result is the returned flag and the
  new \<open>old_value\<close>.
\<close>

definition TRACE_CHANGED_IMPLEMENT :: "nat \<Rightarrow> 'v::linorder \<Rightarrow> 'v \<Rightarrow> bool \<times> 'v" where
  "TRACE_CHANGED_IMPLEMENT trigger object old_value =
     (if object \<noteq> old_value then
        if trigger = BSM_TRIGGER_VAL_BOTH
           \<or> (trigger = BSM_TRIGGER_VAL_POS \<and> object > old_value)
           \<or> (trigger = BSM_TRIGGER_VAL_NEG \<and> object < old_value)
        then (True, old_value)
        else (False, object)
      else (False, old_value))"

text \<open>
  The same macro text for a class whose value type brings its own \<open>!=\<close>, \<open>>\<close> and \<open><\<close>,
  passed here as \<open>ne\<close>, \<open>gt\<close> and \<open>lt\<close>.
\<close>

definition TRACE_CHANGED_IMPLEMENT_ops ::
  "('v \<Rightarrow> 'v \<Rightarrow> bool) \<Rightarrow> ('v \<Rightarrow> 'v \<Rightarrow> bool) \<Rightarrow> ('v \<Rightarrow> 'v \<Rightarrow> bool)
     \<Rightarrow> nat \<Rightarrow> 'v \<Rightarrow> 'v \<Rightarrow> bool \<times> 'v" where
  "TRACE_CHANGED_IMPLEMENT_ops ne gt lt trigger object old_value =
     (if ne object old_value then
        if trigger = BSM_TRIGGER_VAL_BOTH
           \<or> (trigger = BSM_TRIGGER_VAL_POS \<and> gt object old_value)
           \<or> (trigger = BSM_TRIGGER_VAL_NEG \<and> lt object old_value)
        then (True, old_value)
        else (False, object)
      else (False, old_value))"

text \<open>
  The bit rendering shared by the integer traces: \<open>x\<close> for every position on overflow,
  else the bits from \<open>bit_width - 1\<close> down to 0, the mask \<open>bit_mask\<close> shifted right once
  per position.
\<close>

definition uint64_rawdata :: "int \<Rightarrow> 64 word \<Rightarrow> 64 word \<Rightarrow> string" where
  "uint64_rawdata width mask' object =
     (if (object AND mask') \<noteq> object then replicate (nat width) (CHR ''x'')
      else map (\<lambda>bitindex.
                  if object AND drop_bit bitindex (push_bit (nat (width - 1)) 1) \<noteq> 0
                  then CHR ''1'' else CHR ''0'')
               [0..<nat width])"

text \<open>
  The two ways a call can abort instead of returning: a print on a \<open>NULL\<close> stream, and
  a failed \<open>assert\<close> or \<open>sc_assert\<close>.
\<close>

datatype fault = Null_stream | Assertion_failed

text \<open>
  \<open>write(FILE* f)\<close>, dispatched on the class (\<open>trace_write\<close> here, \<open>write\<close> being reserved). The flag \<open>f\<close> says whether the stream is a
  real one (\<open>True\<close>) or \<open>NULL\<close>; the result is the text put on the stream and the trace
  after the call. \<open>bsm_sc_event_trace::write\<close> is the one class that prints without
  testing \<open>f\<close>: with a null stream and a changed stamp it dereferences \<open>NULL\<close>.
\<close>

definition trace_write :: "objects \<Rightarrow> bool \<Rightarrow> trace \<Rightarrow> fault + (string \<times> trace)" where
  "trace_write objs f t =
     (case body t of
        T_trace obj old_value \<Rightarrow>
          Inr (if f then compose_line t (bv_objects objs obj) else [],
               t\<lparr>body := T_trace obj (bv_objects objs obj)\<rparr>)
      | Sc_event_trace obj old_trigger_stamp \<Rightarrow>
          if \<not> (event_trigger_stamp objs obj \<noteq> old_trigger_stamp) then Inr ([], t)
          else if \<not> f then Inl Null_stream
          else Inr ([CHR ''1''] @ bsm_name t,
                    t\<lparr>body := Sc_event_trace obj (event_trigger_stamp objs obj)\<rparr>)
      | Bool_trace obj old_value \<Rightarrow>
          Inr (if f then
                 (if bool_objects objs obj = True then [CHR ''1''] else [CHR ''0''])
                 @ (if is_print_vcd t then bsm_name t else [])
               else [],
               t\<lparr>body := Bool_trace obj (bool_objects objs obj)\<rparr>)
      | Uint64_trace obj old_value mask' \<Rightarrow>
          Inr (if f then
                 (let rawdata = uint64_rawdata (bit_width t) mask' (uint64_objects objs obj)
                  in if is_print_vcd t then compose_data_line t rawdata else rawdata)
               else [],
               t\<lparr>body := Uint64_trace obj (uint64_objects objs obj) mask'\<rparr>)
      | Sc_time_trace obj shadow_object old_value mask' \<Rightarrow>
          Inr (if f then
                 (let rawdata = uint64_rawdata (bit_width t) mask' shadow_object
                  in if is_print_vcd t then compose_data_line t rawdata else rawdata)
               else [],
               t\<lparr>body := Sc_time_trace obj shadow_object shadow_object mask'\<rparr>)
      | Interface_trace obj old_value data_type \<Rightarrow>
          (let val = bsm_string objs obj
           in Inr (if f then
                     (if is_print_vcd t then
                        (if data_type = CHR ''b''
                         then [data_type] @ strip_leading_bits val @ [CHR '' ''] @ bsm_name t
                         else [data_type] @ val @ [CHR '' ''] @ bsm_name t)
                      else val)
                   else [],
                   t\<lparr>body := Interface_trace obj val data_type\<rparr>))
      | Double_trace obj old_value \<Rightarrow>
          Inr (if f then
                 (if is_print_vcd t
                  then [CHR ''r''] @ printf_16g objs (double_objects objs obj) @ [CHR '' ''] @ bsm_name t
                  else printf_16g objs (double_objects objs obj))
               else [],
               t\<lparr>body := Double_trace obj (double_objects objs obj)\<rparr>))"

text \<open>
  \<open>changed()\<close>, dispatched on the class; it returns the flag and the trace after the call
  (the macro may have stored a new \<open>old_value\<close>, \<open>bsm_sc_time_trace\<close> refreshes its
  shadow copy first).
\<close>

definition changed :: "objects \<Rightarrow> trace \<Rightarrow> bool \<times> trace" where
  "changed objs t =
     (case body t of
        T_trace obj old_value \<Rightarrow> (\<not> (bv_objects objs obj = old_value), t)
      | Sc_event_trace obj old_trigger_stamp \<Rightarrow>
          (event_trigger_stamp objs obj \<noteq> old_trigger_stamp, t)
      | Bool_trace obj old_value \<Rightarrow>
          (let (r, old') = TRACE_CHANGED_IMPLEMENT (bsm_trigger_type t) (bool_objects objs obj) old_value
           in (r, t\<lparr>body := Bool_trace obj old'\<rparr>))
      | Uint64_trace obj old_value mask' \<Rightarrow>
          (let (r, old') = TRACE_CHANGED_IMPLEMENT (bsm_trigger_type t) (uint64_objects objs obj) old_value
           in (r, t\<lparr>body := Uint64_trace obj old' mask'\<rparr>))
      | Sc_time_trace obj shadow_object old_value mask' \<Rightarrow>
          (let shadow' = sc_time_objects objs obj;
               (r, old') = TRACE_CHANGED_IMPLEMENT (bsm_trigger_type t) shadow' old_value
           in (r, t\<lparr>body := Sc_time_trace obj shadow' old' mask'\<rparr>))
      | Interface_trace obj old_value data_type \<Rightarrow>
          (let (r, old') = TRACE_CHANGED_IMPLEMENT (bsm_trigger_type t) (bsm_string objs obj) old_value
           in (r, t\<lparr>body := Interface_trace obj old' data_type\<rparr>))
      | Double_trace obj old_value \<Rightarrow>
          (let (r, old') = TRACE_CHANGED_IMPLEMENT_ops double_ne double_gt double_lt
                             (bsm_trigger_type t) (double_objects objs obj) old_value
           in (r, t\<lparr>body := Double_trace obj old'\<rparr>)))"


text \<open>
  The constructors. Every one passes \<open>name_\<close>, \<open>bsm_name_\<close>, \<open>print_type_\<close> and
  \<open>trigger_type_\<close> to the base constructor, which sets the type name \<open>wire\<close>, width 0
  and trace type \<open>BSM_TRACE_ORIG\<close>; the body then reads the object once for the first
  \<open>old_value\<close>.
\<close>

definition BSM_LAST :: nat where "BSM_LAST = 4"

definition bsm_types :: "nat \<Rightarrow> string" where
  "bsm_types i = (if i < BSM_LAST then [''wire'', ''real'', ''event'', ''time''] ! i else [])"

definition bsm_trace_base :: "string \<Rightarrow> string \<Rightarrow> nat \<Rightarrow> nat \<Rightarrow> trace_body \<Rightarrow> trace" where
  "bsm_trace_base name' bsm_name' print_type trigger_type b =
     \<lparr>trace_name = name', bsm_name = bsm_name', bsm_var_typ_name = bsm_types 0,
      bit_width = 0, bsm_trace_type = BSM_TRACE_ORIG, bsm_trigger_type = trigger_type,
      bsm_trace_print_type = print_type, body = b\<rparr>"

definition bsm_sc_event_trace :: "objects \<Rightarrow> objref \<Rightarrow> string \<Rightarrow> string \<Rightarrow> nat \<Rightarrow> nat \<Rightarrow> trace" where
  "bsm_sc_event_trace objs trigger_stamp name' bsm_name' print_type trigger_type =
     (bsm_trace_base name' bsm_name' print_type trigger_type
        (Sc_event_trace trigger_stamp (event_trigger_stamp objs trigger_stamp)))
     \<lparr>bsm_var_typ_name := bsm_types 2, bit_width := 1\<rparr>"

definition bsm_bool_trace :: "objects \<Rightarrow> objref \<Rightarrow> string \<Rightarrow> string \<Rightarrow> nat \<Rightarrow> nat \<Rightarrow> trace" where
  "bsm_bool_trace objs object name' bsm_name' print_type trigger_type =
     (bsm_trace_base name' bsm_name' print_type trigger_type
        (Bool_trace object (bool_objects objs object)))
     \<lparr>bit_width := 1\<rparr>"

definition bsm_T_trace :: "objects \<Rightarrow> objref \<Rightarrow> string \<Rightarrow> string \<Rightarrow> nat \<Rightarrow> nat \<Rightarrow> nat \<Rightarrow> fault + trace" where
  "bsm_T_trace objs object name' bsm_name' type' print_type trigger_type =
     (if \<not> type' < BSM_LAST then Inl Assertion_failed
      else Inr ((bsm_trace_base name' bsm_name' print_type trigger_type
                   (T_trace object (bv_objects objs object)))
                \<lparr>bsm_var_typ_name := bsm_types type'\<rparr>))"

definition bsm_uint64_trace :: "objects \<Rightarrow> objref \<Rightarrow> string \<Rightarrow> string \<Rightarrow> int \<Rightarrow> nat \<Rightarrow> nat \<Rightarrow> trace" where
  "bsm_uint64_trace objs object name' bsm_name' width print_type trigger_type =
     (bsm_trace_base name' bsm_name' print_type trigger_type
        (Uint64_trace object (uint64_objects objs object)
           (if width < 64 then NOT (push_bit (nat width) (- 1)) else - 1)))
     \<lparr>bit_width := width\<rparr>"

definition bsm_sc_time_trace :: "objects \<Rightarrow> objref \<Rightarrow> string \<Rightarrow> string \<Rightarrow> nat \<Rightarrow> nat \<Rightarrow> trace" where
  "bsm_sc_time_trace objs object name' bsm_name' print_type trigger_type =
     (bsm_trace_base name' bsm_name' print_type trigger_type
        (Sc_time_trace object (sc_time_objects objs object) (sc_time_objects objs object) (- 1)))
     \<lparr>bit_width := 64, bsm_var_typ_name := bsm_types 3\<rparr>"

definition bsm_interface_trace :: "objects \<Rightarrow> objref \<Rightarrow> string \<Rightarrow> string \<Rightarrow> nat \<Rightarrow> char \<Rightarrow> nat \<Rightarrow> trace" where
  "bsm_interface_trace objs object name' bsm_name' print_type data_type trigger_type =
     (bsm_trace_base name' bsm_name' print_type trigger_type
        (Interface_trace object (bsm_string objs object) data_type))
     \<lparr>bit_width := 1\<rparr>"

definition bsm_double_trace :: "objects \<Rightarrow> objref \<Rightarrow> string \<Rightarrow> string \<Rightarrow> nat \<Rightarrow> nat \<Rightarrow> trace" where
  "bsm_double_trace objs object name' bsm_name' print_type trigger_type =
     (bsm_trace_base name' bsm_name' print_type trigger_type
        (Double_trace object (double_objects objs object)))
     \<lparr>bsm_var_typ_name := bsm_types 1, bit_width := 1\<rparr>"

text \<open>\<open>set_width()\<close>: only the vector trace overrides the empty base version here.\<close>

definition set_width :: "objects \<Rightarrow> trace \<Rightarrow> trace" where
  "set_width objs t =
     (case body t of
        T_trace obj old_value \<Rightarrow> t\<lparr>bit_width := int (length (bv_objects objs obj))\<rparr>
      | _ \<Rightarrow> t)"

definition remove_bsm_name_problems :: "string \<Rightarrow> string" where
  "remove_bsm_name_problems name' =
     map (\<lambda>c. if c = CHR ''['' then CHR ''('' else if c = CHR '']'' then CHR '')'' else c) name'"

text \<open>The conversion \<open>% 3d\<close> of a positive width: a blank for the sign, padded to three.\<close>

definition fmt_space3 :: "int \<Rightarrow> string" where
  "fmt_space3 w = (let d = CHR '' '' # dec_string (nat w) in replicate (3 - length d) (CHR '' '') @ d)"

definition print_variable_declaration_line :: "trace \<Rightarrow> string" where
  "print_variable_declaration_line t =
     (if bit_width t \<le> 0 then []
      else if bit_width t = 1 then
        ''$var '' @ bsm_var_typ_name t @ ''  '' @ fmt_space3 (bit_width t) @ ''  '' @ bsm_name t
          @ ''  '' @ remove_bsm_name_problems (trace_name t) @ ''       $end'' @ [newline]
      else
        ''$var '' @ bsm_var_typ_name t @ ''  '' @ fmt_space3 (bit_width t) @ ''  '' @ bsm_name t
          @ ''  '' @ remove_bsm_name_problems (trace_name t) @ '' ['' @ dec_string (nat (bit_width t - 1))
          @ '':0]  $end'' @ [newline])"

section \<open>bsm\_trace\_file\<close>

text \<open>
  The members of \<open>bsm_trace_file\<close>, together with what it uses of its base class
  \<open>sc_trace_file_base\<close> (declared in \<open>sysc/tracing/sc_trace_file_base.h\<close>): the stream
  \<open>fp\<close> (held as the text written so far) and the accessors \<open>is_initialized()\<close>,
  \<open>delta_cycles()\<close>, \<open>has_low_units()\<close> and \<open>low_units_len()\<close>, each held as a field.
\<close>

record bsm_trace_file =
  fp :: string
  is_initialized :: bool
  delta_cycles :: bool
  has_low_units :: bool
  low_units_len :: nat
  bsm_name_index :: "32 word"
  previous_time_units_low :: "64 word"
  previous_time_units_high :: "64 word"
  traces :: "trace list"
  bsm_print_type :: nat
  bsm_trace_enable :: bool

text \<open>
  What one call of \<open>cycle\<close> reads from the simulation kernel: the result of
  \<open>timestamp_in_trace_units\<close>, \<open>sc_delta_count_at_current_time()\<close>, the traced objects,
  and the texts that only the header of a VCD file uses.
\<close>

record kernel =
  now_units_high :: "64 word"
  now_units_low :: "64 word"
  delta_count_at_current_time :: nat
  objs :: objects
  localtime_string :: string
  sc_version :: string
  trace_unit_str :: string
  time_stamp_seconds :: string

text \<open>
  The constructor; the first three arguments stand for the state of the base class
  (\<open>delta_cycles()\<close>, \<open>has_low_units()\<close>, \<open>low_units_len()\<close>), the last is \<open>type\<close>.
\<close>

definition bsm_trace_file_new :: "bool \<Rightarrow> bool \<Rightarrow> nat \<Rightarrow> nat \<Rightarrow> bsm_trace_file" where
  "bsm_trace_file_new dc hlu lul type' =
     \<lparr>fp = [], is_initialized = False, delta_cycles = dc, has_low_units = hlu, low_units_len = lul,
      bsm_name_index = 0, previous_time_units_low = 0, previous_time_units_high = 0,
      traces = [], bsm_print_type = type', bsm_trace_enable = True\<rparr>"

text \<open>
  \<open>obtain_name\<close>. \<open>result\<close> is an \<open>int\<close>: the assignment from the unsigned index
  reinterprets the 32 bits as signed, and \<open>/\<close> and \<open>%\<close> on \<open>int\<close> truncate towards zero.
  \<open>bsm_name_index % used_types_count\<close> and \<open>bsm_name_index / used_types_count\<close> are
  unsigned operations. Each \<open>%c\<close> prints the low byte of its argument.
\<close>

definition obtain_name :: "bsm_trace_file \<Rightarrow> string \<times> bsm_trace_file" where
  "obtain_name tf =
     (let first_type_used = (97 :: int);
          used_types_count = (26 :: int);
          result0 = sint (bsm_name_index tf);
          char6 = int (unat (bsm_name_index tf) mod 26);
          result1 = result0 sdiv used_types_count;
          char5 = result1 smod used_types_count;
          result2 = result1 sdiv used_types_count;
          char4 = result2 smod used_types_count;
          result3 = int (unat (bsm_name_index tf) div 26);
          char3 = result3 smod used_types_count;
          result4 = result3 sdiv used_types_count;
          char2 = result4 smod used_types_count
      in ([char_of (char2 + first_type_used), char_of (char3 + first_type_used),
           char_of (char4 + first_type_used), char_of (char5 + first_type_used),
           char_of (char6 + first_type_used)],
          tf\<lparr>bsm_name_index := bsm_name_index tf + 1\<rparr>))"

definition get_time_stamp :: "bsm_trace_file \<Rightarrow> kernel \<Rightarrow> bool" where
  "get_time_stamp tf k =
     ((now_units_low k > previous_time_units_low tf \<and> now_units_high k = previous_time_units_high tf)
      \<or> now_units_high k > previous_time_units_high tf)"

definition print_time_stamp :: "bsm_trace_file \<Rightarrow> 64 word \<Rightarrow> 64 word \<Rightarrow> string" where
  "print_time_stamp tf high low =
     (if has_low_units tf
      then ''#'' @ dec_string (unat high) @ setw_zero (low_units_len tf) (dec_string (unat low))
      else ''#'' @ dec_string (unat high))
     @ [newline]"

definition write_comment :: "string \<Rightarrow> string" where
  "write_comment comment = ''$comment'' @ [newline] @ comment @ [newline] @ ''$end'' @ [newline, newline]"


text \<open>
  \<open>do_initialize\<close>. The two dump loops run over the vector of traces; a trace of type
  \<open>BSM_TRACE_VAL\<close> (a "valid" signal) is left out of a VCD dump and only refreshed
  (\<open>write(NULL)\<close>) in the simple format.
\<close>

fun dumpvars_vcd :: "objects \<Rightarrow> trace list \<Rightarrow> fault + (string \<times> trace list)" where
  "dumpvars_vcd ob [] = Inr ([], [])"
| "dumpvars_vcd ob (t # ts) =
     (if bsm_trace_type t = BSM_TRACE_VAL then
        (case dumpvars_vcd ob ts of
           Inl e \<Rightarrow> Inl e
         | Inr (out, ts') \<Rightarrow> Inr (out, t # ts'))
      else
        (case trace_write ob True t of
           Inl e \<Rightarrow> Inl e
         | Inr (txt, t') \<Rightarrow>
             (case dumpvars_vcd ob ts of
                Inl e \<Rightarrow> Inl e
              | Inr (out, ts') \<Rightarrow> Inr (txt @ [newline] @ out, t' # ts'))))"

fun dumpvars_simple :: "objects \<Rightarrow> trace list \<Rightarrow> fault + (string \<times> trace list)" where
  "dumpvars_simple ob [] = Inr ([], [])"
| "dumpvars_simple ob (t # ts) =
     (case (if bsm_trace_type t = BSM_TRACE_ORIG
            then (case trace_write ob True t of
                    Inl e \<Rightarrow> Inl e
                  | Inr (txt, t') \<Rightarrow> Inr (txt @ [newline], t'))
            else trace_write ob False t) of
        Inl e \<Rightarrow> Inl e
      | Inr (txt, t') \<Rightarrow>
          (case dumpvars_simple ob ts of
             Inl e \<Rightarrow> Inl e
           | Inr (out, ts') \<Rightarrow> Inr (txt @ out, t' # ts')))"

definition do_initialize :: "kernel \<Rightarrow> bsm_trace_file \<Rightarrow> fault + bsm_trace_file" where
  "do_initialize k tf =
     (let ts = map (set_width (objs k)) (traces tf);
          tf1 = tf\<lparr>previous_time_units_high := now_units_high k,
                   previous_time_units_low := now_units_low k\<rparr>
      in if bsm_print_type tf = BT_VCD then
           (let header =
                  ''$date'' @ [newline] @ ''     '' @ localtime_string k @ [newline] @ ''$end'' @ [newline, newline]
                  @ ''$version'' @ [newline] @ '' '' @ sc_version k @ [newline] @ ''$end'' @ [newline, newline]
                  @ ''$timescale'' @ [newline] @ ''     '' @ trace_unit_str k @ [newline] @ ''$end'' @ [newline, newline]
                  @ ''$scope module SystemC $end'' @ [newline]
                  @ concat (map print_variable_declaration_line
                              (filter (\<lambda>t. bsm_trace_type t \<noteq> BSM_TRACE_VAL) ts))
                  @ ''$upscope $end'' @ [newline]
                  @ ''$enddefinitions  $end'' @ [newline, newline];
                comment =
                  ''All initial values are dumped below at time '' @ time_stamp_seconds k @ '' sec = ''
                  @ (if has_low_units tf
                     then dec_string (unat (now_units_high k))
                          @ setw_zero (low_units_len tf) (dec_string (unat (now_units_low k)))
                     else dec_string (unat (now_units_high k)))
                  @ '' timescale units.''
            in case dumpvars_vcd (objs k) ts of
                 Inl e \<Rightarrow> Inl e
               | Inr (out, ts') \<Rightarrow>
                   Inr (tf1\<lparr>traces := ts',
                            fp := fp tf @ header @ write_comment comment @ ''$dumpvars'' @ [newline]
                                  @ out @ ''$end'' @ [newline, newline]\<rparr>))
         else
           (case dumpvars_simple (objs k) ts of
              Inl e \<Rightarrow> Inl e
            | Inr (out, ts') \<Rightarrow> Inr (tf1\<lparr>traces := ts', fp := fp tf @ out\<rparr>)))"

text \<open>
  \<open>sc_trace_file_base::initialize()\<close> is declared in the base class, outside the sources
  at hand. As \<open>cycle\<close> uses it ("check for initialization", then return): on the first
  call it runs the virtual \<open>do_initialize\<close> and answers \<open>true\<close>; on later calls it does
  nothing and answers \<open>false\<close>.
\<close>

definition initialize :: "kernel \<Rightarrow> bsm_trace_file \<Rightarrow> fault + (bool \<times> bsm_trace_file)" where
  "initialize k tf =
     (if is_initialized tf then Inr (False, tf)
      else (case do_initialize k (tf\<lparr>is_initialized := True\<rparr>) of
              Inl e \<Rightarrow> Inl e
            | Inr tf' \<Rightarrow> Inr (True, tf')))"

text \<open>
  The printing loop of \<open>cycle\<close>. It is a recursion over the traces from index \<open>i\<close> on;
  the state threaded through is the text appended to \<open>fp\<close>, the flag \<open>time_printed\<close>
  and a record of the calls the loop makes on each trace (by index), kept for the
  statements about the loop: \<open>Changed_call i r\<close> for \<open>t->changed()\<close> answering \<open>r\<close>,
  \<open>Write_call i b\<close> for a \<open>write\<close> on trace \<open>i\<close>, with \<open>b\<close> true when the stream is \<open>fp\<close>
  and false when it is \<open>NULL\<close>.
\<close>

datatype call = Changed_call nat bool | Write_call nat bool

fun cycle_loop ::
  "bsm_trace_file \<Rightarrow> kernel \<Rightarrow> nat \<Rightarrow> trace list \<Rightarrow> string \<times> bool \<times> call list
     \<Rightarrow> fault + (trace list \<times> string \<times> bool \<times> call list)" where
  "cycle_loop tf k i [] st = Inr ([], st)"
| "cycle_loop tf k i (t # ts) (out, time_printed, calls) =
     (case changed (objs k) t of (c, t1) \<Rightarrow>
        let calls1 = calls @ [Changed_call i c] in
        if \<not> c then
          (case cycle_loop tf k (Suc i) ts (out, time_printed, calls1) of
             Inl e \<Rightarrow> Inl e
           | Inr (ts', st') \<Rightarrow> Inr (t1 # ts', st'))
        else if \<not> bsm_trace_enable tf then
          (case trace_write (objs k) False t1 of
             Inl e \<Rightarrow> Inl e
           | Inr (txt, t2) \<Rightarrow>
               (case cycle_loop tf k (Suc i) ts (out, time_printed, calls1 @ [Write_call i False]) of
                  Inl e \<Rightarrow> Inl e
                | Inr (ts', st') \<Rightarrow> Inr (t2 # ts', st')))
        else
          (let stamp = (if \<not> time_printed \<and> bsm_print_type tf = BT_VCD
                        then print_time_stamp tf (now_units_high k) (now_units_low k) else []);
               time_printed1 = (time_printed \<or> bsm_print_type tf = BT_VCD)
           in if bsm_trace_type t1 = BSM_TRACE_ORIG then
                (case trace_write (objs k) True t1 of
                   Inl e \<Rightarrow> Inl e
                 | Inr (txt, t2) \<Rightarrow>
                     (case cycle_loop tf k (Suc i) ts
                             (out @ stamp @ txt @ [newline], time_printed1,
                              calls1 @ [Write_call i True]) of
                        Inl e \<Rightarrow> Inl e
                      | Inr (ts', st') \<Rightarrow> Inr (t2 # ts', st')))
              else
                (case trace_write (objs k) False t1 of
                   Inl e \<Rightarrow> Inl e
                 | Inr (txt0, t2) \<Rightarrow>
                     (case ts of
                        [] \<Rightarrow> Inl Assertion_failed
                      | d # ds \<Rightarrow>
                          (case trace_write (objs k) True d of
                             Inl e \<Rightarrow> Inl e
                           | Inr (txt, d2) \<Rightarrow>
                               (case cycle_loop tf k (Suc (Suc i)) ds
                                       (out @ stamp @ txt @ [newline], time_printed1,
                                        calls1 @ [Write_call i False, Write_call (Suc i) True]) of
                                  Inl e \<Rightarrow> Inl e
                                | Inr (ds', st') \<Rightarrow> Inr (t2 # d2 # ds', st')))))))"

declare cycle_loop.simps [simp del]

text \<open>
  \<open>cycle\<close>. The warnings and the information message go to the report handler, not to
  the trace file, and are left out. The result is the trace file after the call and the
  calls the printing loop made (none when the call returns before the loop).
\<close>

definition cycle :: "kernel \<Rightarrow> bool \<Rightarrow> bsm_trace_file \<Rightarrow> fault + (bsm_trace_file \<times> call list)" where
  "cycle k this_is_a_delta_cycle tf =
     (if \<not> delta_cycles tf \<and> this_is_a_delta_cycle then Inr (tf, [])
      else case initialize k tf of
        Inl e \<Rightarrow> Inl e
      | Inr (True, tf') \<Rightarrow> Inr (tf', [])
      | Inr (False, tf') \<Rightarrow>
          let time_advanced = get_time_stamp tf' k in
          if delta_cycles tf' \<and> this_is_a_delta_cycle
             \<and> delta_count_at_current_time k = 0 \<and> \<not> time_advanced
          then Inr (tf', [])
          else if delta_cycles tf' \<and> \<not> this_is_a_delta_cycle
          then Inr (if time_advanced
                    then tf'\<lparr>previous_time_units_high := now_units_high k,
                             previous_time_units_low := now_units_low k\<rparr>
                    else tf', [])
          else
            (case cycle_loop tf' k 0 (traces tf') ([], False, []) of
               Inl e \<Rightarrow> Inl e
             | Inr (ts', out, time_printed, calls) \<Rightarrow>
                 Inr (tf'\<lparr>traces := ts',
                          fp := fp tf' @ out @ (if time_printed then [newline] else [])\<rparr>,
                      calls)))"


section \<open>sc\_spawn\<close>

text \<open>
  A process body runs on the state of the simulated program. The part of that state
  the spawn layer itself touches is the memory a result pointer points into: \<open>heap\<close>
  maps a location to the value stored there, location 0 being the null pointer.
\<close>

record 'r world =
  heap :: "nat \<Rightarrow> 'r"

text \<open>
  The two host classes. \<open>sc_spawn_object\<close> keeps a copy of the callable;
  \<open>sc_spawn_object_v\<close> keeps the callable and the result pointer. A callable without a
  result is a state transformer, one with a result returns it beside the new state.
\<close>

datatype ('r, 'x) sc_process_host =
    Sc_spawn_object "('r, 'x) world_scheme \<Rightarrow> ('r, 'x) world_scheme"
  | Sc_spawn_object_v nat "('r, 'x) world_scheme \<Rightarrow> 'r \<times> ('r, 'x) world_scheme"

text \<open>
  \<open>semantics()\<close> of either class: \<open>m_object()\<close>, respectively \<open>*m_result_p = m_object()\<close>.
  The result is \<open>None\<close> when the store goes through a null pointer.
\<close>

fun semantics :: "('r, 'x) sc_process_host \<Rightarrow> ('r, 'x) world_scheme \<Rightarrow> ('r, 'x) world_scheme option" where
  "semantics (Sc_spawn_object m_object) w = Some (m_object w)"
| "semantics (Sc_spawn_object_v m_result_p m_object) w =
     (case m_object w of (r, w') \<Rightarrow>
        if m_result_p = 0 then None
        else Some (w'\<lparr>heap := (heap w')(m_result_p := r)\<rparr>))"

record sc_spawn_options =
  is_method :: bool
  dont_initialize :: bool
  stack_size :: int

datatype sc_curr_proc_kind = SC_METHOD_PROC | SC_THREAD_PROC

text \<open>
  A process as the simulation context registers it: its kind, its name, the scope it
  was created in, and the arguments \<open>free_host\<close>, \<open>method_p\<close>, \<open>host_p\<close> and \<open>opt_p\<close> of the
  creating call. Running the process body is \<open>(host_p->*method_p)()\<close>.
\<close>

record ('r, 'x) sc_process =
  proc_kind :: sc_curr_proc_kind
  proc_name :: "string option"
  proc_scope :: string
  free_host :: bool
  method_p :: "('r, 'x) sc_process_host \<Rightarrow> ('r, 'x) world_scheme \<Rightarrow> ('r, 'x) world_scheme option"
  host_p :: "('r, 'x) sc_process_host"
  opt_p :: "sc_spawn_options option"

definition process_body :: "('r, 'x) sc_process \<Rightarrow> ('r, 'x) world_scheme \<Rightarrow> ('r, 'x) world_scheme option" where
  "process_body p = method_p p (host_p p)"

record ('r, 'x) sc_simcontext =
  hierarchy_curr :: string
  process_table :: "('r, 'x) sc_process list"

datatype spawn_error = InvalidContext | DuplicateName

text \<open>
  Modelled from the spec: \<open>sc_get_curr_simcontext\<close>, \<open>sc_simcontext::create_thread_process\<close>
  and \<open>sc_simcontext::create_method_process\<close> are declared in \<open>sysc/kernel\<close> and are not
  part of the sources at hand. The spec says that a spawn "registers [the body] as a
  thread or method process", "returns an owning-by-scheduler / non-owning-by-caller
  handle", and "fails with InvalidContext if called outside an active scheduler context,
  DuplicateName if the name collides within the same hierarchical scope". The current
  context is \<open>None\<close> outside an active scheduler context; a handle is the index of the
  process in the context's table; a null name supplies no name and collides with none.
\<close>

definition sc_get_curr_simcontext :: "('r, 'x) sc_simcontext option \<Rightarrow> spawn_error + ('r, 'x) sc_simcontext" where
  "sc_get_curr_simcontext cur = (case cur of None \<Rightarrow> Inl InvalidContext | Some c \<Rightarrow> Inr c)"

definition name_collides :: "('r, 'x) sc_simcontext \<Rightarrow> string option \<Rightarrow> bool" where
  "name_collides c name_p =
     (case name_p of
        None \<Rightarrow> False
      | Some n \<Rightarrow> list_ex (\<lambda>p. proc_scope p = hierarchy_curr c \<and> proc_name p = Some n) (process_table c))"

definition create_process ::
  "sc_curr_proc_kind \<Rightarrow> ('r, 'x) sc_simcontext \<Rightarrow> string option \<Rightarrow> bool
     \<Rightarrow> (('r, 'x) sc_process_host \<Rightarrow> ('r, 'x) world_scheme \<Rightarrow> ('r, 'x) world_scheme option)
     \<Rightarrow> ('r, 'x) sc_process_host \<Rightarrow> sc_spawn_options option
     \<Rightarrow> spawn_error + (nat \<times> ('r, 'x) sc_simcontext)" where
  "create_process kind c name_p fh mp hp op =
     (if name_collides c name_p then Inl DuplicateName
      else Inr (length (process_table c),
                c\<lparr>process_table := process_table c @
                     [\<lparr>proc_kind = kind, proc_name = name_p, proc_scope = hierarchy_curr c,
                       free_host = fh, method_p = mp, host_p = hp, opt_p = op\<rparr>]\<rparr>))"

definition create_thread_process ::
  "('r, 'x) sc_simcontext \<Rightarrow> string option \<Rightarrow> bool
     \<Rightarrow> (('r, 'x) sc_process_host \<Rightarrow> ('r, 'x) world_scheme \<Rightarrow> ('r, 'x) world_scheme option)
     \<Rightarrow> ('r, 'x) sc_process_host \<Rightarrow> sc_spawn_options option
     \<Rightarrow> spawn_error + (nat \<times> ('r, 'x) sc_simcontext)" where
  "create_thread_process = create_process SC_THREAD_PROC"

definition create_method_process ::
  "('r, 'x) sc_simcontext \<Rightarrow> string option \<Rightarrow> bool
     \<Rightarrow> (('r, 'x) sc_process_host \<Rightarrow> ('r, 'x) world_scheme \<Rightarrow> ('r, 'x) world_scheme option)
     \<Rightarrow> ('r, 'x) sc_process_host \<Rightarrow> sc_spawn_options option
     \<Rightarrow> spawn_error + (nat \<times> ('r, 'x) sc_simcontext)" where
  "create_method_process = create_process SC_METHOD_PROC"

text \<open>
  \<open>sc_spawn\<close>, the overload without a result and the one with a result pointer
  (\<open>sc_spawn_v\<close>), as written in \<open>sc_spawn.h\<close>: fetch the context, build the host object,
  then create a thread process unless the options ask for a method.
\<close>

definition sc_spawn ::
  "(('r, 'x) world_scheme \<Rightarrow> ('r, 'x) world_scheme) \<Rightarrow> string option \<Rightarrow> sc_spawn_options option
     \<Rightarrow> ('r, 'x) sc_simcontext option \<Rightarrow> spawn_error + (nat \<times> ('r, 'x) sc_simcontext)" where
  "sc_spawn object name_p op cur =
     (case sc_get_curr_simcontext cur of
        Inl e \<Rightarrow> Inl e
      | Inr context_p \<Rightarrow>
          let spawn_p = Sc_spawn_object object in
          if (case op of None \<Rightarrow> True | Some opt \<Rightarrow> \<not> is_method opt)
          then create_thread_process context_p name_p True semantics spawn_p op
          else create_method_process context_p name_p True semantics spawn_p op)"

definition sc_spawn_v ::
  "nat \<Rightarrow> (('r, 'x) world_scheme \<Rightarrow> 'r \<times> ('r, 'x) world_scheme) \<Rightarrow> string option
     \<Rightarrow> sc_spawn_options option \<Rightarrow> ('r, 'x) sc_simcontext option
     \<Rightarrow> spawn_error + (nat \<times> ('r, 'x) sc_simcontext)" where
  "sc_spawn_v r_p object name_p op cur =
     (case sc_get_curr_simcontext cur of
        Inl e \<Rightarrow> Inl e
      | Inr context_p \<Rightarrow>
          let spawn_p = Sc_spawn_object_v r_p object in
          if (case op of None \<Rightarrow> True | Some opt \<Rightarrow> \<not> is_method opt)
          then create_thread_process context_p name_p True semantics spawn_p op
          else create_method_process context_p name_p True semantics spawn_p op)"


section \<open>Auxiliary notions for the statements\<close>

text \<open>
  The lower-case range, the names of \<open>n\<close> successive calls of \<open>obtain_name\<close>, and the
  name that belongs to an index below \<open>2^31\<close>, written with natural-number arithmetic.
\<close>

definition in_a_to_z :: "char \<Rightarrow> bool" where
  "in_a_to_z c = (CHR ''a'' \<le> c \<and> c \<le> CHR ''z'')"

fun obtain_names :: "nat \<Rightarrow> bsm_trace_file \<Rightarrow> string list" where
  "obtain_names 0 tf = []"
| "obtain_names (Suc n) tf = (case obtain_name tf of (nm, tf') \<Rightarrow> nm # obtain_names n tf')"

definition letter :: "nat \<Rightarrow> char" where
  "letter m = char_of (97 + m)"

definition name_of_index :: "nat \<Rightarrow> string" where
  "name_of_index n =
     [letter (n div 676 mod 26), letter (n div 26 mod 26), letter (n div 676 mod 26),
      letter (n div 26 mod 26), letter (n mod 26)]"

text \<open>
  The order on time stamps: pairs (high, low) of 64-bit counts, compared
  lexicographically with the high part first.
\<close>

type_synonym time_units = "64 word \<times> 64 word"

definition time_less :: "time_units \<Rightarrow> time_units \<Rightarrow> bool" where
  "time_less a b = (fst a < fst b \<or> (fst a = fst b \<and> snd a < snd b))"

definition time_le :: "time_units \<Rightarrow> time_units \<Rightarrow> bool" where
  "time_le a b = (time_less a b \<or> a = b)"

definition kernel_time :: "kernel \<Rightarrow> time_units" where
  "kernel_time k = (now_units_high k, now_units_low k)"

definition previous_time :: "bsm_trace_file \<Rightarrow> time_units" where
  "previous_time tf = (previous_time_units_high tf, previous_time_units_low tf)"

text \<open>
  Modelled from the spec: the scheduler and its clock (\<open>sc_time_stamp\<close>, read by
  \<open>timestamp_in_trace_units\<close>) are not part of the sources at hand. The spec says of
  SimulationTime: "monotonically non-decreasing across the simulation's lifetime; only
  the time-advance phase may increase it". A run of the simulation shows the trace
  file a sequence of kernel states, one per call of \<open>cycle\<close>, whose time stamps never
  decrease.
\<close>

definition kernel_time_monotone :: "(kernel \<times> bool) list \<Rightarrow> bool" where
  "kernel_time_monotone run = sorted_wrt time_le (map (\<lambda>(k, d). kernel_time k) run)"

text \<open>
  The observation points of a run: for each call \<open>cycle(delta)\<close> the pair recorded in the
  trace file when the call starts, beside the current time stamp. The run ends when a call
  aborts.
\<close>

fun observations :: "bsm_trace_file \<Rightarrow> (kernel \<times> bool) list \<Rightarrow> (time_units \<times> time_units) list" where
  "observations tf [] = []"
| "observations tf ((k, d) # run) =
     (previous_time tf, kernel_time k) #
     (case cycle k d tf of Inl e \<Rightarrow> [] | Inr (tf', calls) \<Rightarrow> observations tf' run)"

text \<open>Concrete inputs for the examples: an object store with every object at rest, and a kernel state at a given time.\<close>

definition objects0 :: objects where
  "objects0 = \<lparr>bv_objects = (\<lambda>r. []), event_trigger_stamp = (\<lambda>r. 0), bool_objects = (\<lambda>r. False),
                uint64_objects = (\<lambda>r. 0), sc_time_objects = (\<lambda>r. 0), bsm_string = (\<lambda>r. []),
                double_objects = (\<lambda>r. 0), printf_16g = (\<lambda>x. [])\<rparr>"

definition kernel_at :: "64 word \<Rightarrow> 64 word \<Rightarrow> nat \<Rightarrow> objects \<Rightarrow> kernel" where
  "kernel_at high low delta ob =
     \<lparr>now_units_high = high, now_units_low = low, delta_count_at_current_time = delta, objs = ob,
      localtime_string = [], sc_version = [], trace_unit_str = [], time_stamp_seconds = []\<rparr>"

text \<open>
  Concrete inputs for the spawn examples: a world whose memory holds zeros, a callable
  that stores 7 at location 1, a callable that returns 42, a context without processes
  and one that already holds a process named \<open>p\<close>.
\<close>

definition world0 :: "nat world" where
  "world0 = \<lparr>heap = (\<lambda>a. 0)\<rparr>"

definition store7 :: "nat world \<Rightarrow> nat world" where
  "store7 w = w\<lparr>heap := (heap w)(1 := 7)\<rparr>"

definition answer42 :: "nat world \<Rightarrow> nat \<times> nat world" where
  "answer42 w = (42, w)"

definition simcontext0 :: "(nat, unit) sc_simcontext" where
  "simcontext0 = \<lparr>hierarchy_curr = ''top'', process_table = []\<rparr>"

definition simcontext1 :: "(nat, unit) sc_simcontext" where
  "simcontext1 =
     \<lparr>hierarchy_curr = ''top'',
      process_table =
        [\<lparr>proc_kind = SC_THREAD_PROC, proc_name = Some ''p'', proc_scope = ''top'', free_host = True,
          method_p = semantics, host_p = Sc_spawn_object store7, opt_p = None\<rparr>]\<rparr>"

definition method_options :: sc_spawn_options where
  "method_options = \<lparr>is_method = True, dont_initialize = False, stack_size = 0\<rparr>"

text \<open>
  A uniform view of what a trace has stored as previous value and of what its traced
  object holds now, for comparing the two across classes.
\<close>

datatype traced_value =
  String_val string | Stamp_val "64 word" | Bool_val bool | Word_val "64 word" | Double_val "64 word"

definition stored_value :: "trace \<Rightarrow> traced_value" where
  "stored_value t =
     (case body t of
        T_trace obj old_value \<Rightarrow> String_val old_value
      | Sc_event_trace obj old_trigger_stamp \<Rightarrow> Stamp_val old_trigger_stamp
      | Bool_trace obj old_value \<Rightarrow> Bool_val old_value
      | Uint64_trace obj old_value mask' \<Rightarrow> Word_val old_value
      | Sc_time_trace obj shadow_object old_value mask' \<Rightarrow> Word_val old_value
      | Interface_trace obj old_value data_type \<Rightarrow> String_val old_value
      | Double_trace obj old_value \<Rightarrow> Double_val old_value)"

definition object_value :: "objects \<Rightarrow> trace \<Rightarrow> traced_value" where
  "object_value ob t =
     (case body t of
        T_trace obj old_value \<Rightarrow> String_val (bv_objects ob obj)
      | Sc_event_trace obj old_trigger_stamp \<Rightarrow> Stamp_val (event_trigger_stamp ob obj)
      | Bool_trace obj old_value \<Rightarrow> Bool_val (bool_objects ob obj)
      | Uint64_trace obj old_value mask' \<Rightarrow> Word_val (uint64_objects ob obj)
      | Sc_time_trace obj shadow_object old_value mask' \<Rightarrow> Word_val (sc_time_objects ob obj)
      | Interface_trace obj old_value data_type \<Rightarrow> String_val (bsm_string ob obj)
      | Double_trace obj old_value \<Rightarrow> Double_val (double_objects ob obj))"

text \<open>
  For a time trace: whether the member \<open>shadow_object\<close> holds the present value of the
  traced \<open>sc_time\<close>. Every other class reads its object directly.
\<close>

definition shadow_current :: "objects \<Rightarrow> trace \<Rightarrow> bool" where
  "shadow_current ob t =
     (case body t of
        Sc_time_trace obj shadow_object old_value mask' \<Rightarrow> shadow_object = sc_time_objects ob obj
      | _ \<Rightarrow> True)"

text \<open>Whether the trace is a \<open>double\<close> trace whose traced object holds a NaN.\<close>

definition holds_nan :: "objects \<Rightarrow> trace \<Rightarrow> bool" where
  "holds_nan ob t =
     (case body t of
        Double_trace obj old_value \<Rightarrow> isnan (double_objects ob obj)
      | _ \<Rightarrow> False)"

definition is_sc_time_trace :: "trace \<Rightarrow> bool" where
  "is_sc_time_trace t = (case body t of Sc_time_trace obj shadow_object old_value mask' \<Rightarrow> True | _ \<Rightarrow> False)"

text \<open>
  Reading the record of calls: the index a call is made on, and whether a call is a
  \<open>changed()\<close> on trace \<open>j\<close>. \<open>calls_from i ts new\<close> collects what holds of the calls
  \<open>new\<close> that the printing loop makes from index \<open>i\<close> on, \<open>ts\<close> being the traces from
  there: no call below \<open>i\<close>, at most one \<open>changed()\<close> per trace, and a \<open>write(fp)\<close> on a
  trace only after a \<open>changed()\<close> answering true on that trace or on the one before it,
  the one before it not being of type \<open>BSM_TRACE_ORIG\<close>.
\<close>

fun call_index :: "call \<Rightarrow> nat" where
  "call_index (Changed_call j r) = j"
| "call_index (Write_call j b) = j"

fun is_changed_call :: "nat \<Rightarrow> call \<Rightarrow> bool" where
  "is_changed_call j (Changed_call j' r) = (j = j')"
| "is_changed_call j (Write_call j' b) = False"

definition calls_from :: "nat \<Rightarrow> trace list \<Rightarrow> call list \<Rightarrow> bool" where
  "calls_from i ts new =
     ((\<forall>c \<in> set new. i \<le> call_index c)
      \<and> (\<forall>j. length (filter (is_changed_call j) new) \<le> 1)
      \<and> (\<forall>j. Write_call j True \<in> set new \<longrightarrow>
             Changed_call j True \<in> set new
             \<or> (i < j \<and> Changed_call (j - 1) True \<in> set new
                 \<and> bsm_trace_type (ts ! (j - 1 - i)) \<noteq> BSM_TRACE_ORIG)))"

text \<open>
  A trace file after initialisation with two boolean traces, the first marked as the
  "valid" signal of the second, and the kernel state in which the first has risen and
  the second is unchanged.
\<close>

definition valid_data_file :: bsm_trace_file where
  "valid_data_file =
     (bsm_trace_file_new False True 3 BT_SIMPLE)
       \<lparr>is_initialized := True,
        traces := [(bsm_bool_trace objects0 0 ''valid'' ''aaaaa'' BT_SIMPLE BSM_TRIGGER_VAL_BOTH)
                     \<lparr>bsm_trace_type := BSM_TRACE_VAL\<rparr>,
                   bsm_bool_trace objects0 1 ''data'' ''aaaab'' BT_SIMPLE BSM_TRIGGER_VAL_BOTH]\<rparr>"

definition valid_risen :: kernel where
  "valid_risen = kernel_at 0 5 0 (objects0\<lparr>bool_objects := (\<lambda>r. r = 0)\<rparr>)"

section \<open>Properties\<close>

subsection \<open>strip\_leading\_bits\<close>

text \<open>The loop stops exactly behind the maximal run of \<open>c\<close> that starts at \<open>position\<close>.\<close>

lemma skip_first_char_takeWhile:
  "position \<le> length buf \<Longrightarrow>
   skip_first_char c buf position = position + length (takeWhile (\<lambda>d. d = c) (drop position buf))"
proof (induction c buf position rule: skip_first_char.induct)
  case (1 first_char buf position)
  show ?case
  proof (cases "position < length buf")
    case True
    then have d: "drop position buf = buf ! position # drop (Suc position) buf"
      using Cons_nth_drop_Suc [of position buf] by simp
    show ?thesis
    proof (cases "buf ! position = first_char")
      case True
      with \<open>position < length buf\<close> 1
      have "skip_first_char first_char buf (Suc position)
          = Suc position + length (takeWhile (\<lambda>d. d = first_char) (drop (Suc position) buf))"
        by simp
      with True \<open>position < length buf\<close> d show ?thesis
        by (subst skip_first_char.simps) simp
    next
      case False
      with d show ?thesis by (subst skip_first_char.simps) simp
    qed
  next
    case False
    with 1 show ?thesis by (subst skip_first_char.simps) simp
  qed
qed

text \<open>
  Claim C9. \<open>strip_leading_bits\<close> returns its argument unchanged when it has fewer than
  two characters or does not start with \<open>0\<close>, \<open>x\<close> or \<open>z\<close>. Otherwise, with \<open>c\<close> the first
  character and \<open>k\<close> the length of the maximal leading run of \<open>c\<close>: when \<open>c\<close> is \<open>0\<close> and
  the run is followed by \<open>1\<close> the result is the suffix behind the run, in every other
  case the suffix that starts at the last character of the run.
\<close>

theorem strip_leading_bits_spec:
  "strip_leading_bits s =
     (if length s < 2 \<or> hd s \<notin> {CHR ''0'', CHR ''x'', CHR ''z''} then s
      else let c = hd s; k = length (takeWhile (\<lambda>d. d = c) s) in
        if c = CHR ''0'' \<and> k < length s \<and> s ! k = CHR ''1'' then drop k s
        else drop (k - 1) s)"
proof (cases "length s < 2")
  case True
  then show ?thesis by (simp add: strip_leading_bits_def)
next
  case False
  then have hd: "c_char_at s 0 = hd s" by (cases s) (simp_all add: c_char_at_def)
  have k: "skip_first_char c s 0 = length (takeWhile (\<lambda>d. d = c) s)" for c
    using skip_first_char_takeWhile [of 0 s c] by simp
  have one: "c_char_at s n = CHR ''1'' \<longleftrightarrow> n < length s \<and> s ! n = CHR ''1''" for n
    by (simp add: c_char_at_def NUL_def)
  show ?thesis
    using False by (auto simp add: strip_leading_bits_def hd k one Let_def)
qed

theorem strip_leading_bits_spec_witness:
  "strip_leading_bits ''0000010101'' = ''10101'' \<and> strip_leading_bits ''000z100'' = ''0z100''
   \<and> strip_leading_bits ''1001'' = ''1001''"
  using strip_leading_bits_spec [of "''0000010101''"] strip_leading_bits_spec [of "''000z100''"]
    strip_leading_bits_spec [of "''1001''"]
  by (simp add: Let_def)

subsection \<open>obtain\_name\<close>

lemma sdiv_nonneg: "0 \<le> k \<Longrightarrow> k sdiv 26 = k div (26::int)"
proof (cases "k = 0")
  case True
  then show ?thesis by simp
next
  case False
  assume "0 \<le> k"
  with False have "sgn k = 1" by simp
  then show ?thesis using \<open>0 \<le> k\<close> by (simp add: signed_divide_int_def)
qed

lemma smod_nonneg: "0 \<le> k \<Longrightarrow> k smod 26 = k mod (26::int)"
  by (simp add: smod_mod_positive)

lemma char_of_letter: "char_of (97 + int a) = letter a"
  using char_of_nat [of "97 + a", where ?'a = int] by (simp add: letter_def)

lemma sint_small:
  fixes w :: "32 word"
  assumes "unat w < 2 ^ 31"
  shows "sint w = int (unat w)"
proof -
  from assms have "int (unat w) < int (2 ^ 31)" by (rule iffD2 [OF of_nat_less_iff])
  then have hi: "uint w < 2 ^ 31" by simp
  have "- (2 ^ 31) \<le> (0 :: int)" by simp
  also have "0 \<le> uint w" by simp
  finally have lo: "- (2 ^ 31) \<le> uint w" .
  from lo hi have "signed_take_bit 31 (uint w) = uint w"
    by (rule signed_take_bit_int_eq_self)
  then show ?thesis by (simp add: sint_uint)
qed

lemma obtain_name_small:
  assumes "unat (bsm_name_index tf) < 2 ^ 31"
  shows "fst (obtain_name tf) = name_of_index (unat (bsm_name_index tf))"
proof -
  define n where "n = unat (bsm_name_index tf)"
  have s: "sint (bsm_name_index tf) = int n"
    using assms by (simp add: sint_small n_def)
  have d: "int n div 26 = int (n div 26)" "int (n div 26) div 26 = int (n div 676)"
    by (simp_all add: zdiv_int div_mult2_eq)
  have m: "int a mod 26 = int (a mod 26)" for a by (simp add: zmod_int)
  show ?thesis
    unfolding obtain_name_def Let_def fst_conv s n_def [symmetric] name_of_index_def
    by (simp add: sdiv_nonneg smod_nonneg d m add.commute [of _ 97] char_of_letter)
qed

lemma letter_range: "m < 26 \<Longrightarrow> in_a_to_z (letter m)"
  by (simp add: in_a_to_z_def letter_def less_eq_char_def)

lemma letter_inj: "a < 26 \<Longrightarrow> b < 26 \<Longrightarrow> letter a = letter b \<Longrightarrow> a = b"
proof -
  assume a: "a < 26" and b: "b < 26" and e: "letter a = letter b"
  from e have "(of_char (letter a) :: nat) = of_char (letter b)" by simp
  then have "(97 + a) mod 256 = (97 + b) mod 256" by (simp add: letter_def)
  with a b show "a = b" by simp
qed

lemma index_decomp:
  fixes n :: nat
  assumes "n < 17576"
  shows "n = 676 * (n div 676 mod 26) + 26 * (n div 26 mod 26) + n mod 26"
proof -
  from assms have "n div 676 < 26" by (simp add: div_less_iff_less_mult)
  then have a: "n div 676 mod 26 = n div 676" by simp
  have b: "n div 26 div 26 = n div 676" by (simp add: div_mult2_eq [symmetric])
  have "n = 26 * (n div 26) + n mod 26" by simp
  also have "n div 26 = 26 * (n div 26 div 26) + n div 26 mod 26" by simp
  finally show ?thesis by (simp add: a b)
qed

lemma name_of_index_inj:
  assumes "i < 17576" "j < 17576" "name_of_index i = name_of_index j"
  shows "i = j"
proof -
  from assms(3) have l: "letter (i div 676 mod 26) = letter (j div 676 mod 26)"
    "letter (i div 26 mod 26) = letter (j div 26 mod 26)" "letter (i mod 26) = letter (j mod 26)"
    by (simp_all add: name_of_index_def)
  have "i div 676 mod 26 = j div 676 mod 26"
    by (rule letter_inj [OF _ _ l(1)]) simp_all
  moreover have "i div 26 mod 26 = j div 26 mod 26"
    by (rule letter_inj [OF _ _ l(2)]) simp_all
  moreover have "i mod 26 = j mod 26"
    by (rule letter_inj [OF _ _ l(3)]) simp_all
  ultimately show ?thesis
    using index_decomp [OF assms(1)] index_decomp [OF assms(2)] by simp
qed


lemma obtain_name_index: "bsm_name_index (snd (obtain_name tf)) = bsm_name_index tf + 1"
  by (simp add: obtain_name_def Let_def)

lemma unat_succ_small:
  fixes w :: "32 word"
  assumes "unat w < 2 ^ 31"
  shows "unat (w + 1) = unat w + 1"
proof -
  from assms have "unat w + unat (1 :: 32 word) < 2 ^ LENGTH(32)" by simp
  then have "unat (w + 1) = unat w + unat (1 :: 32 word)" by (simp only: unat_add_lem)
  then show ?thesis by simp
qed

lemma obtain_names_map:
  "unat (bsm_name_index tf) + n \<le> 2 ^ 31 \<Longrightarrow>
   obtain_names n tf = map name_of_index [unat (bsm_name_index tf) ..< unat (bsm_name_index tf) + n]"
proof (induction n arbitrary: tf)
  case 0
  then show ?case by simp
next
  case (Suc n)
  obtain nm tf' where o: "obtain_name tf = (nm, tf')" by (cases "obtain_name tf")
  from Suc.prems have small: "unat (bsm_name_index tf) < 2 ^ 31" by simp
  from o have nm: "nm = name_of_index (unat (bsm_name_index tf))"
    using obtain_name_small [OF small] by simp
  from o have "bsm_name_index tf' = bsm_name_index tf + 1"
    using obtain_name_index [of tf] by simp
  then have idx: "unat (bsm_name_index tf') = Suc (unat (bsm_name_index tf))"
    using unat_succ_small [OF small] by simp
  with Suc.prems have "unat (bsm_name_index tf') + n \<le> 2 ^ 31" by simp
  then have "obtain_names n tf' =
      map name_of_index [unat (bsm_name_index tf') ..< unat (bsm_name_index tf') + n]"
    by (rule Suc.IH)
  with o nm idx show ?case by (simp add: upt_conv_Cons del: upt_Suc)
qed

lemma name_of_index_range: "list_all in_a_to_z (name_of_index n)"
  by (simp add: name_of_index_def letter_range)

text \<open>
  Where \<open>obtain_name\<close> does what it aims at: it always returns five characters and adds one
  to the name index; while the index is below \<open>2^31\<close> every character lies between \<open>a\<close>
  and \<open>z\<close>; and the names of the first 17576 calls on a freshly constructed trace file
  are pairwise distinct.
\<close>

lemma obtain_name_below_2_31:
  "(case obtain_name tf of (nm, tf') \<Rightarrow>
      length nm = 5 \<and> bsm_name_index tf' = bsm_name_index tf + 1
      \<and> (unat (bsm_name_index tf) < 2 ^ 31 \<longrightarrow>
           list_all in_a_to_z nm \<and> unat (bsm_name_index tf') = unat (bsm_name_index tf) + 1))
   \<and> distinct (obtain_names 17576 (bsm_trace_file_new dc hlu lul ty))"
proof -
  obtain nm tf' where o: "obtain_name tf = (nm, tf')" by (cases "obtain_name tf")
  then have len: "length nm = 5" by (auto simp add: obtain_name_def Let_def)
  from o have idx: "bsm_name_index tf' = bsm_name_index tf + 1"
    using obtain_name_index [of tf] by simp
  have rng: "list_all in_a_to_z nm \<and> unat (bsm_name_index tf') = unat (bsm_name_index tf) + 1"
    if small: "unat (bsm_name_index tf) < 2 ^ 31"
  proof -
    from o obtain_name_small [OF small] have "nm = name_of_index (unat (bsm_name_index tf))"
      by simp
    then show ?thesis
      using name_of_index_range unat_succ_small [OF small] idx by simp
  qed
  have fresh: "bsm_name_index (bsm_trace_file_new dc hlu lul ty) = 0"
    by (simp add: bsm_trace_file_new_def)
  have "obtain_names 17576 (bsm_trace_file_new dc hlu lul ty) = map name_of_index [0 ..< 17576]"
    using obtain_names_map [of "bsm_trace_file_new dc hlu lul ty" 17576] by (simp add: fresh)
  moreover have "inj_on name_of_index (set [0 ..< 17576])"
    by (rule inj_onI) (auto intro: name_of_index_inj)
  ultimately have "distinct (obtain_names 17576 (bsm_trace_file_new dc hlu lul ty))"
    by (simp add: distinct_map)
  with o len idx rng show ?thesis by simp
qed

text \<open>
  Claim C10. The claim says that every call of \<open>obtain_name\<close> returns five characters
  between \<open>a\<close> and \<open>z\<close>. With the name index at \<open>2^31\<close> the signed \<open>result\<close> is negative,
  and so are the remainders behind the fourth and the third character: the code returns
  \<open>syOIy\<close>, whose third and fourth characters are capitals. The characters computed
  from the unsigned index (the first, second and fifth) stay in range.
\<close>

theorem obtain_name_at_2_31:
  "fst (obtain_name ((bsm_trace_file_new True True 3 1)\<lparr>bsm_name_index := 2147483648\<rparr>)) = ''syOIy''
   \<and> \<not> list_all in_a_to_z
         (fst (obtain_name ((bsm_trace_file_new True True 3 1)\<lparr>bsm_name_index := 2147483648\<rparr>)))"
proof -
  have e: "fst (obtain_name ((bsm_trace_file_new True True 3 1)\<lparr>bsm_name_index := 2147483648\<rparr>)) = ''syOIy''"
    by (simp add: obtain_name_def Let_def bsm_trace_file_new_def
          signed_divide_int_def signed_modulo_int_def char_of_eq_iff)
  show ?thesis unfolding e by (simp add: in_a_to_z_def)
qed

subsection \<open>Time stamps\<close>

lemma time_le_refl: "time_le a a"
  by (simp add: time_le_def)

lemma time_le_trans: "time_le a b \<Longrightarrow> time_le b c \<Longrightarrow> time_le a c"
  by (auto simp add: time_le_def time_less_def)

text \<open>The printing loop changes neither of the two recorded counts: it does not return a trace file.\<close>

lemma do_initialize_previous:
  "do_initialize k tf = Inr tf' \<Longrightarrow> previous_time tf' = kernel_time k"
  by (auto simp add: do_initialize_def previous_time_def kernel_time_def Let_def
        split: if_splits sum.splits prod.splits)

lemma cycle_previous:
  assumes "cycle k d tf = Inr (tf', calls)"
  shows "previous_time tf' = previous_time tf \<or> previous_time tf' = kernel_time k"
proof (cases "is_initialized tf")
  case False
  with assms show ?thesis
    by (auto simp add: cycle_def initialize_def split: if_splits sum.splits dest: do_initialize_previous)
next
  case True
  with assms show ?thesis
    by (auto simp add: cycle_def initialize_def previous_time_def kernel_time_def Let_def
          split: if_splits sum.splits prod.splits)
qed

lemma observations_ordered:
  "kernel_time_monotone run \<Longrightarrow>
   (\<And>k d. (k, d) \<in> set run \<Longrightarrow> time_le (previous_time tf) (kernel_time k)) \<Longrightarrow>
   (p, c) \<in> set (observations tf run) \<Longrightarrow> time_le p c"
proof (induction run arbitrary: tf)
  case Nil
  then show ?case by simp
next
  case (Cons kd run)
  obtain k d where kd: "kd = (k, d)" by (cases kd)
  have here: "time_le (previous_time tf) (kernel_time k)"
    by (rule Cons.prems(2) [of k d]) (simp add: kd)
  from Cons.prems(1) kd have mono: "kernel_time_monotone run"
    and later: "\<And>k' d'. (k', d') \<in> set run \<Longrightarrow> time_le (kernel_time k) (kernel_time k')"
    by (auto simp add: kernel_time_monotone_def)
  show ?case
  proof (cases "(p, c) = (previous_time tf, kernel_time k)")
    case True
    with here show ?thesis by simp
  next
    case False
    with Cons.prems(3) kd
    have "(p, c) \<in> set (case cycle k d tf of Inl e \<Rightarrow> [] | Inr (tf', calls) \<Rightarrow> observations tf' run)"
      by auto
    then obtain tf' calls where cy: "cycle k d tf = Inr (tf', calls)"
      and mem: "(p, c) \<in> set (observations tf' run)"
      by (cases "cycle k d tf") auto
    have nxt: "time_le (previous_time tf') (kernel_time k')" if "(k', d') \<in> set run" for k' d'
    proof -
      from cycle_previous [OF cy] show ?thesis
      proof
        assume "previous_time tf' = previous_time tf"
        with Cons.prems(2) [of k' d'] that show ?thesis by simp
      next
        assume "previous_time tf' = kernel_time k"
        with later [OF that] show ?thesis by simp
      qed
    qed
    from mono nxt mem show ?thesis by (rule Cons.IH)
  qed
qed

text \<open>
  Claim C2. \<open>get_time_stamp\<close> answers true exactly when the current time stamp is
  strictly greater than the recorded one, high count first. The constructor records the
  pair (0, 0). Along a run in which the kernel's time never decreases, starting with a
  trace file that still holds the constructor's pair, the current pair is greater than or
  equal to the recorded pair at every call of \<open>cycle\<close>.
\<close>

theorem simulation_time_monotone:
  "(get_time_stamp tf k \<longleftrightarrow> time_less (previous_time tf) (kernel_time k))
   \<and> previous_time (bsm_trace_file_new dc hlu lul ty) = (0, 0)
   \<and> (kernel_time_monotone run \<and> previous_time tf0 = (0, 0) \<longrightarrow>
        (\<forall>(p, c) \<in> set (observations tf0 run). time_le p c))"
proof -
  have a: "get_time_stamp tf k \<longleftrightarrow> time_less (previous_time tf) (kernel_time k)"
    by (auto simp add: get_time_stamp_def time_less_def previous_time_def kernel_time_def)
  have b: "previous_time (bsm_trace_file_new dc hlu lul ty) = (0, 0)"
    by (simp add: previous_time_def bsm_trace_file_new_def)
  have z: "time_le (0, 0) t" for t
    by (cases t) (auto simp add: time_le_def time_less_def word_neq_0_conv [symmetric])
  have "time_le p c" if "kernel_time_monotone run" "previous_time tf0 = (0, 0)"
    "(p, c) \<in> set (observations tf0 run)" for p c
    using that(1) z [folded that(2)] that(3) by (rule observations_ordered)
  with a b show ?thesis by auto
qed

theorem simulation_time_monotone_witness:
  "kernel_time_monotone [(kernel_at 0 5 0 objects0, False), (kernel_at 0 7 0 objects0, False)]
   \<and> observations (bsm_trace_file_new False True 3 BT_SIMPLE)
         [(kernel_at 0 5 0 objects0, False), (kernel_at 0 7 0 objects0, False)]
       = [((0, 0), (0, 5)), ((0, 5), (0, 7))]
   \<and> time_le (0, 0) (0, 5) \<and> time_le (0, 5) (0, 7)
   \<and> previous_time (bsm_trace_file_new False True 3 BT_SIMPLE) = (0, 0)"
  using simulation_time_monotone
    [of "bsm_trace_file_new False True 3 BT_SIMPLE" "kernel_at 0 5 0 objects0" False True 3 BT_SIMPLE
        "[(kernel_at 0 5 0 objects0, False), (kernel_at 0 7 0 objects0, False)]"
        "bsm_trace_file_new False True 3 BT_SIMPLE"]
  by (simp add: kernel_time_monotone_def time_le_def time_less_def kernel_time_def kernel_at_def
        bsm_trace_file_new_def previous_time_def cycle_def initialize_def do_initialize_def
        get_time_stamp_def BT_SIMPLE_def BT_VCD_def Let_def cycle_loop.simps)

subsection \<open>Edge triggers\<close>

text \<open>
  Claim C8. For a trace whose \<open>changed()\<close> is \<open>TRACE_CHANGED_IMPLEMENT\<close>: with trigger type
  \<open>BSM_TRIGGER_VAL_POS\<close> (\<open>BSM_TRIGGER_VAL_NEG\<close>) the answer is true exactly when the value
  differs from the recorded one and is greater (smaller). When the value differs but the
  direction does not match, or the trigger type is \<open>BSM_TRIGGER_VAL_NONE\<close>, the answer is
  false and the recorded value becomes the current one; the suppressed change is then
  consumed: asking again while the value stays gives false, and every later answer
  compares with the value at the suppressed change, whatever the value recorded before
  it was (so a return to that earlier level is judged as a new change from the current
  level, never as the old one).
\<close>

theorem changed_edge_trigger:
  fixes object old_value :: "'v::linorder"
  shows
  "(trigger = BSM_TRIGGER_VAL_POS \<longrightarrow>
      (fst (TRACE_CHANGED_IMPLEMENT trigger object old_value) \<longleftrightarrow> object \<noteq> old_value \<and> object > old_value))
   \<and> (trigger = BSM_TRIGGER_VAL_NEG \<longrightarrow>
      (fst (TRACE_CHANGED_IMPLEMENT trigger object old_value) \<longleftrightarrow> object \<noteq> old_value \<and> object < old_value))
   \<and> ((object \<noteq> old_value \<and> (trigger = BSM_TRIGGER_VAL_POS \<and> \<not> object > old_value
                               \<or> trigger = BSM_TRIGGER_VAL_NEG \<and> \<not> object < old_value))
        \<or> trigger = BSM_TRIGGER_VAL_NONE \<longrightarrow>
        TRACE_CHANGED_IMPLEMENT trigger object old_value = (False, object)
        \<and> TRACE_CHANGED_IMPLEMENT trigger object (snd (TRACE_CHANGED_IMPLEMENT trigger object old_value))
            = (False, object)
        \<and> (\<forall>later. TRACE_CHANGED_IMPLEMENT trigger later (snd (TRACE_CHANGED_IMPLEMENT trigger object old_value))
                      = TRACE_CHANGED_IMPLEMENT trigger later object))"
  by (auto simp add: TRACE_CHANGED_IMPLEMENT_def BSM_TRIGGER_VAL_POS_def BSM_TRIGGER_VAL_NEG_def
        BSM_TRIGGER_VAL_BOTH_def BSM_TRIGGER_VAL_NONE_def)

theorem changed_edge_trigger_witness:
  "fst (TRACE_CHANGED_IMPLEMENT BSM_TRIGGER_VAL_POS True False)
   \<and> \<not> fst (TRACE_CHANGED_IMPLEMENT BSM_TRIGGER_VAL_NEG True False)
   \<and> TRACE_CHANGED_IMPLEMENT BSM_TRIGGER_VAL_NEG True False = (False, True)
   \<and> TRACE_CHANGED_IMPLEMENT BSM_TRIGGER_VAL_NONE True False = (False, True)"
  using changed_edge_trigger [of BSM_TRIGGER_VAL_POS True False]
    changed_edge_trigger [of BSM_TRIGGER_VAL_NEG True False]
    changed_edge_trigger [of BSM_TRIGGER_VAL_NONE True False]
  by (simp add: BSM_TRIGGER_VAL_POS_def BSM_TRIGGER_VAL_NEG_def BSM_TRIGGER_VAL_NONE_def)

text \<open>The boolean trace is one instance: its \<open>changed()\<close> is the macro on the traced flag.\<close>

lemma changed_bool_trace:
  "body t = Bool_trace obj old_value \<Longrightarrow>
   changed ob t =
     (fst (TRACE_CHANGED_IMPLEMENT (bsm_trigger_type t) (bool_objects ob obj) old_value),
      t\<lparr>body := Bool_trace obj (snd (TRACE_CHANGED_IMPLEMENT (bsm_trigger_type t) (bool_objects ob obj) old_value))\<rparr>)"
  by (simp add: changed_def split: prod.splits)

text \<open>On a totally ordered type the macro with the type's own comparisons is the macro above.\<close>

lemma TRACE_CHANGED_IMPLEMENT_ops_linorder:
  "TRACE_CHANGED_IMPLEMENT_ops (\<lambda>a b. a \<noteq> b) (\<lambda>a b. a > b) (\<lambda>a b. a < b) trigger object old_value
   = TRACE_CHANGED_IMPLEMENT trigger (object :: 'v::linorder) old_value"
  by (simp add: TRACE_CHANGED_IMPLEMENT_ops_def TRACE_CHANGED_IMPLEMENT_def)

subsection \<open>Event traces\<close>

text \<open>
  Claim C5. For an event trace, \<open>changed()\<close> is true exactly when the event's trigger stamp
  differs from the recorded one; a newly constructed trace records the stamp of that
  moment. \<open>write(f)\<close> on a real stream prints (the digit 1 and the trace's short name)
  and records the current stamp when there is such a change, and does nothing otherwise.
  After a \<open>write\<close> the trace reports no change and a second \<open>write\<close> prints nothing, until
  the stamp changes again: a firing is reported at most once.
\<close>

theorem event_trace_reports_once:
  assumes "body t = Sc_event_trace obj old_trigger_stamp"
  shows "changed ob t = (event_trigger_stamp ob obj \<noteq> old_trigger_stamp, t)
    \<and> \<not> fst (changed ob (bsm_sc_event_trace ob obj nm bnm pt tt))
    \<and> trace_write ob True t =
        (if event_trigger_stamp ob obj \<noteq> old_trigger_stamp
         then Inr ([CHR ''1''] @ bsm_name t, t\<lparr>body := Sc_event_trace obj (event_trigger_stamp ob obj)\<rparr>)
         else Inr ([], t))
    \<and> (\<forall>txt t'. trace_write ob True t = Inr (txt, t') \<longrightarrow>
          \<not> fst (changed ob t') \<and> trace_write ob True t' = Inr ([], t'))"
  using assms
  by (auto simp add: changed_def trace_write_def bsm_sc_event_trace_def bsm_trace_base_def)

theorem event_trace_reports_once_witness:
  "body (bsm_sc_event_trace objects0 0 ''ev'' ''aaaaa'' BT_SIMPLE BSM_TRIGGER_VAL_BOTH) = Sc_event_trace 0 0
   \<and> fst (changed (objects0\<lparr>event_trigger_stamp := (\<lambda>r. 1)\<rparr>)
             (bsm_sc_event_trace objects0 0 ''ev'' ''aaaaa'' BT_SIMPLE BSM_TRIGGER_VAL_BOTH))
   \<and> trace_write (objects0\<lparr>event_trigger_stamp := (\<lambda>r. 1)\<rparr>) True
        (bsm_sc_event_trace objects0 0 ''ev'' ''aaaaa'' BT_SIMPLE BSM_TRIGGER_VAL_BOTH)
      = Inr (''1aaaaa'',
             (bsm_sc_event_trace objects0 0 ''ev'' ''aaaaa'' BT_SIMPLE BSM_TRIGGER_VAL_BOTH)
               \<lparr>body := Sc_event_trace 0 1\<rparr>)"
  using event_trace_reports_once
    [of "bsm_sc_event_trace objects0 0 ''ev'' ''aaaaa'' BT_SIMPLE BSM_TRIGGER_VAL_BOTH" 0 0
        "objects0\<lparr>event_trigger_stamp := (\<lambda>r. 1)\<rparr>"]
  by (simp add: bsm_sc_event_trace_def bsm_trace_base_def objects0_def)

subsection \<open>Spawning\<close>

text \<open>What a successful creation does to the context: one process more, at the returned index.\<close>

lemma create_process_Inr:
  "create_process kind c name_p fh mp hp op = Inr (h, c') \<Longrightarrow>
   h = length (process_table c) \<and>
   process_table c' = process_table c @
     [\<lparr>proc_kind = kind, proc_name = name_p, proc_scope = hierarchy_curr c,
       free_host = fh, method_p = mp, host_p = hp, opt_p = op\<rparr>]"
  by (auto simp add: create_process_def split: if_splits)

lemma sc_spawn_Inr:
  assumes "sc_spawn object name_p op cur = Inr (h, c')"
  obtains c where "cur = Some c" "h = length (process_table c)"
    "process_table c' = process_table c @
       [\<lparr>proc_kind = (if (case op of None \<Rightarrow> True | Some opt \<Rightarrow> \<not> is_method opt)
                      then SC_THREAD_PROC else SC_METHOD_PROC),
         proc_name = name_p, proc_scope = hierarchy_curr c, free_host = True,
         method_p = semantics, host_p = Sc_spawn_object object, opt_p = op\<rparr>]"
proof (cases cur)
  case None
  with assms show ?thesis by (simp add: sc_spawn_def sc_get_curr_simcontext_def)
next
  case (Some c)
  with assms that [of c] show ?thesis
    by (auto simp add: sc_spawn_def sc_get_curr_simcontext_def create_thread_process_def
          create_method_process_def Let_def split: if_splits dest!: create_process_Inr)
qed

lemma sc_spawn_v_Inr:
  assumes "sc_spawn_v r_p object name_p op cur = Inr (h, c')"
  obtains c where "cur = Some c" "h = length (process_table c)"
    "process_table c' = process_table c @
       [\<lparr>proc_kind = (if (case op of None \<Rightarrow> True | Some opt \<Rightarrow> \<not> is_method opt)
                      then SC_THREAD_PROC else SC_METHOD_PROC),
         proc_name = name_p, proc_scope = hierarchy_curr c, free_host = True,
         method_p = semantics, host_p = Sc_spawn_object_v r_p object, opt_p = op\<rparr>]"
proof (cases cur)
  case None
  with assms show ?thesis by (simp add: sc_spawn_v_def sc_get_curr_simcontext_def)
next
  case (Some c)
  with assms that [of c] show ?thesis
    by (auto simp add: sc_spawn_v_def sc_get_curr_simcontext_def create_thread_process_def
          create_method_process_def Let_def split: if_splits dest!: create_process_Inr)
qed

text \<open>
  Claim C1. Whenever \<open>sc_spawn(object, name_p, opt)\<close> returns a handle, the process behind
  the handle is a thread process when \<open>opt\<close> is null or \<open>opt->is_method()\<close> is false and a
  method process when \<open>opt->is_method()\<close> is true, and running its body applies the
  callable.
\<close>

theorem sc_spawn_registers:
  assumes "sc_spawn object name_p op cur = Inr (h, c')"
  shows "h < length (process_table c')
    \<and> ((op = None \<or> \<not> is_method (the op)) \<longrightarrow> proc_kind (process_table c' ! h) = SC_THREAD_PROC)
    \<and> ((op \<noteq> None \<and> is_method (the op)) \<longrightarrow> proc_kind (process_table c' ! h) = SC_METHOD_PROC)
    \<and> (\<forall>w. process_body (process_table c' ! h) w = Some (object w))"
  using assms
  by (elim sc_spawn_Inr) (auto simp add: process_body_def nth_append split: option.splits)

theorem sc_spawn_registers_witness:
  "(case sc_spawn store7 (Some ''p'') None (Some simcontext0) of
      Inl e \<Rightarrow> False
    | Inr (h, c') \<Rightarrow>
        proc_kind (process_table c' ! h) = SC_THREAD_PROC
        \<and> process_body (process_table c' ! h) world0 = Some (store7 world0))
   \<and> (case sc_spawn store7 (Some ''p'') (Some method_options) (Some simcontext0) of
      Inl e \<Rightarrow> False
    | Inr (h, c') \<Rightarrow>
        proc_kind (process_table c' ! h) = SC_METHOD_PROC
        \<and> process_body (process_table c' ! h) world0 = Some (store7 world0))"
proof -
  obtain h c' where a: "sc_spawn store7 (Some ''p'') None (Some simcontext0) = Inr (h, c')"
    by (simp add: sc_spawn_def sc_get_curr_simcontext_def create_thread_process_def
          create_process_def name_collides_def simcontext0_def)
  obtain h2 c2 where b: "sc_spawn store7 (Some ''p'') (Some method_options) (Some simcontext0) = Inr (h2, c2)"
    by (simp add: sc_spawn_def sc_get_curr_simcontext_def create_method_process_def
          create_process_def name_collides_def simcontext0_def method_options_def)
  show ?thesis
    using sc_spawn_registers [OF a] sc_spawn_registers [OF b] a b
    by (simp add: method_options_def)
qed


text \<open>
  Claim C3. \<open>sc_spawn\<close> fails with \<open>InvalidContext\<close> outside an active scheduler context,
  fails with \<open>DuplicateName\<close> when the supplied name is already used in the current scope,
  and returns a handle in every other case.
\<close>

theorem sc_spawn_errors:
  "(cur = None \<longrightarrow> sc_spawn object name_p op cur = Inl InvalidContext)
   \<and> (\<forall>c. cur = Some c \<and> name_collides c name_p \<longrightarrow>
          sc_spawn object name_p op cur = Inl DuplicateName)
   \<and> (\<forall>c. cur = Some c \<and> \<not> name_collides c name_p \<longrightarrow>
          (\<exists>h c'. sc_spawn object name_p op cur = Inr (h, c')))"
  by (auto simp add: sc_spawn_def sc_get_curr_simcontext_def create_thread_process_def
        create_method_process_def create_process_def Let_def)

theorem sc_spawn_errors_witness:
  "sc_spawn store7 (Some ''p'') None None = Inl InvalidContext
   \<and> name_collides simcontext1 (Some ''p'')
   \<and> sc_spawn store7 (Some ''p'') None (Some simcontext1) = Inl DuplicateName
   \<and> \<not> name_collides simcontext1 (Some ''q'')
   \<and> (case sc_spawn store7 (Some ''q'') None (Some simcontext1) of Inl e \<Rightarrow> False | Inr r \<Rightarrow> True)"
  using sc_spawn_errors [of None store7 "Some ''p''" None]
    sc_spawn_errors [of "Some simcontext1" store7 "Some ''p''" None]
    sc_spawn_errors [of "Some simcontext1" store7 "Some ''q''" None]
  by (auto simp add: name_collides_def simcontext1_def)


text \<open>
  Claim C4. Whenever the overload with a result pointer returns a handle and the pointer
  is not null, every run of the process body evaluates the callable and stores its
  result at the pointer; the process is a thread or a method process by the same rule as
  in the overload without a result, so the two overloads agree on the kind under equal
  options.
\<close>

theorem sc_spawn_v_stores_result:
  fixes object :: "('r, 'x) world_scheme \<Rightarrow> 'r \<times> ('r, 'x) world_scheme"
  assumes "r_p \<noteq> 0" and "sc_spawn_v r_p object name_p op cur = Inr (h, c')"
  shows "h < length (process_table c')
    \<and> (\<forall>w. process_body (process_table c' ! h) w =
             Some ((snd (object w))\<lparr>heap := (heap (snd (object w)))(r_p := fst (object w))\<rparr>))
    \<and> ((op = None \<or> \<not> is_method (the op)) \<longrightarrow> proc_kind (process_table c' ! h) = SC_THREAD_PROC)
    \<and> ((op \<noteq> None \<and> is_method (the op)) \<longrightarrow> proc_kind (process_table c' ! h) = SC_METHOD_PROC)
    \<and> (\<forall>(g :: ('r, 'x) world_scheme \<Rightarrow> ('r, 'x) world_scheme) n2 cur2 h2 c2.
          sc_spawn g n2 op cur2 = Inr (h2, c2) \<longrightarrow>
          proc_kind (process_table c2 ! h2) = proc_kind (process_table c' ! h))"
proof -
  from assms(2) obtain c where c: "cur = Some c" "h = length (process_table c)"
    "process_table c' = process_table c @
       [\<lparr>proc_kind = (if (case op of None \<Rightarrow> True | Some opt \<Rightarrow> \<not> is_method opt)
                      then SC_THREAD_PROC else SC_METHOD_PROC),
         proc_name = name_p, proc_scope = hierarchy_curr c, free_host = True,
         method_p = semantics, host_p = Sc_spawn_object_v r_p object, opt_p = op\<rparr>]"
    by (rule sc_spawn_v_Inr)
  have kind: "proc_kind (process_table c' ! h) =
      (if (case op of None \<Rightarrow> True | Some opt \<Rightarrow> \<not> is_method opt) then SC_THREAD_PROC else SC_METHOD_PROC)"
    using c by (simp add: nth_append)
  have body: "process_body (process_table c' ! h) w =
      Some ((snd (object w))\<lparr>heap := (heap (snd (object w)))(r_p := fst (object w))\<rparr>)" for w
    using c assms(1) by (simp add: nth_append process_body_def split: prod.splits)
  have same: "proc_kind (process_table c2 ! h2) = proc_kind (process_table c' ! h)"
    if "sc_spawn g n2 op cur2 = Inr (h2, c2)" for g :: "('r, 'x) world_scheme \<Rightarrow> ('r, 'x) world_scheme"
      and n2 cur2 h2 c2
    using that kind by (elim sc_spawn_Inr) (simp add: nth_append)
  from c kind body same show ?thesis
    by (auto split: option.splits)
qed

theorem sc_spawn_v_stores_result_witness:
  "(1 :: nat) \<noteq> 0
   \<and> (case sc_spawn_v 1 answer42 (Some ''q'') None (Some simcontext0) of
        Inl e \<Rightarrow> False
      | Inr (h, c') \<Rightarrow>
          proc_kind (process_table c' ! h) = SC_THREAD_PROC
          \<and> process_body (process_table c' ! h) world0 = Some (world0\<lparr>heap := (heap world0)(1 := 42)\<rparr>))"
proof -
  obtain h c' where a: "sc_spawn_v 1 answer42 (Some ''q'') None (Some simcontext0) = Inr (h, c')"
    by (simp add: sc_spawn_v_def sc_get_curr_simcontext_def create_thread_process_def
          create_process_def name_collides_def simcontext0_def)
  have nz: "(1 :: nat) \<noteq> 0" by simp
  show ?thesis
    using sc_spawn_v_stores_result [OF nz a] a
    by (simp add: answer42_def)
qed


subsection \<open>The stored value after a write\<close>

lemma changed_shadow_current: "shadow_current ob (snd (changed ob t))"
  by (cases "body t") (simp_all add: changed_def shadow_current_def Let_def split: prod.splits)

text \<open>
  Where the stored value does follow the object: for a trace whose shadow copy (if it has
  one) is current and whose object is not a NaN, a returning \<open>write()\<close> leaves the stored
  previous value equal to the value the traced object holds at the call, and a
  \<open>changed()\<close> that follows with the object untouched answers false.
\<close>

lemma write_stores_current_value:
  assumes "trace_write ob f t = Inr (txt, t')" and "shadow_current ob t" and "\<not> holds_nan ob t"
  shows "stored_value t' = object_value ob t \<and> \<not> fst (changed ob t')"
  using assms
  by (cases "body t")
    (auto simp add: trace_write_def changed_def stored_value_def object_value_def
       shadow_current_def holds_nan_def TRACE_CHANGED_IMPLEMENT_def
       TRACE_CHANGED_IMPLEMENT_ops_def double_ne_def Let_def split: if_splits)

text \<open>
  Claim C6. The claim says that whenever \<open>write()\<close> of a registered trace returns, the
  stored previous value equals the value the traced object held at the call, so that a
  \<open>changed()\<close> right afterwards, the object untouched, answers false. The code departs
  from this for a time trace: constructed at time 0 and written when the traced
  \<open>sc_time\<close> has moved to 5, with no \<open>changed()\<close> in between (as in the initial dump), it
  stores the shadow copy 0 and the \<open>changed()\<close> that follows answers true. It departs
  from it also for a \<open>double\<close> trace whose object holds a NaN: the value is stored, but
  the \<open>changed()\<close> that follows answers true, a NaN being unequal to itself.
\<close>

theorem write_then_changed_true:
  "(case trace_write (objects0\<lparr>sc_time_objects := (\<lambda>r. 5)\<rparr>) True
           (bsm_sc_time_trace objects0 0 ''t'' ''aaaaa'' BT_SIMPLE BSM_TRIGGER_VAL_BOTH) of
      Inl e \<Rightarrow> False
    | Inr (txt, t') \<Rightarrow>
        stored_value t' = Word_val 0
        \<and> object_value (objects0\<lparr>sc_time_objects := (\<lambda>r. 5)\<rparr>)
             (bsm_sc_time_trace objects0 0 ''t'' ''aaaaa'' BT_SIMPLE BSM_TRIGGER_VAL_BOTH) = Word_val 5
        \<and> fst (changed (objects0\<lparr>sc_time_objects := (\<lambda>r. 5)\<rparr>) t'))
   \<and> (case trace_write (objects0\<lparr>double_objects := (\<lambda>r. 0x7FF8000000000000)\<rparr>) True
           (bsm_double_trace objects0 0 ''d'' ''aaaab'' BT_SIMPLE BSM_TRIGGER_VAL_BOTH) of
      Inl e \<Rightarrow> False
    | Inr (txt, t') \<Rightarrow>
        stored_value t' = Double_val 0x7FF8000000000000
        \<and> fst (changed (objects0\<lparr>double_objects := (\<lambda>r. 0x7FF8000000000000)\<rparr>) t'))"
proof -
  have nan: "isnan 0x7FF8000000000000"
    by (simp add: isnan_def)
  show ?thesis
    by (simp add: trace_write_def changed_def bsm_sc_time_trace_def bsm_double_trace_def
          bsm_trace_base_def objects0_def stored_value_def object_value_def
          TRACE_CHANGED_IMPLEMENT_def TRACE_CHANGED_IMPLEMENT_ops_def double_ne_def nan
          BSM_TRIGGER_VAL_BOTH_def)
qed

subsection \<open>The printing loop of cycle\<close>

lemma changed_trace_type: "bsm_trace_type (snd (changed ob t)) = bsm_trace_type t"
  by (cases "body t") (simp_all add: changed_def Let_def split: prod.splits)

text \<open>One round of the loop, read off the definition: what is appended to the calls and where the loop goes on.\<close>

lemma cycle_loop_step:
  assumes "cycle_loop tf k i (t # ts) (out, tp, calls) = Inr R"
  shows "(\<exists>t1 ts' st'.
            cycle_loop tf k (Suc i) ts (out, tp, calls @ [Changed_call i False]) = Inr (ts', st')
            \<and> R = (t1 # ts', st'))
       \<or> (\<exists>b out1 tp1 t2 ts' st'.
            cycle_loop tf k (Suc i) ts (out1, tp1, calls @ [Changed_call i True, Write_call i b]) = Inr (ts', st')
            \<and> R = (t2 # ts', st'))
       \<or> (\<exists>d ds out1 tp1 t2 d2 ds' st'.
            ts = d # ds \<and> bsm_trace_type t \<noteq> BSM_TRACE_ORIG
            \<and> cycle_loop tf k (Suc (Suc i)) ds
                 (out1, tp1, calls @ [Changed_call i True, Write_call i False, Write_call (Suc i) True]) = Inr (ds', st')
            \<and> R = (t2 # d2 # ds', st'))"
proof -
  note assms = assms [unfolded cycle_loop.simps(2) [of tf k i t ts out tp calls]]
  obtain c t1 where ch: "changed (objs k) t = (c, t1)" by (cases "changed (objs k) t")
  then have ty: "bsm_trace_type t1 = bsm_trace_type t"
    using changed_trace_type [of "objs k" t] by simp
  show ?thesis
  proof (cases c)
    case False
    with assms ch show ?thesis
      by (intro disjI1) (auto simp add: Let_def split: sum.splits; blast)
  next
    case True
    note c = True
    show ?thesis
    proof (cases "bsm_trace_enable tf")
      case False
      with assms ch c show ?thesis
        by (intro disjI2 [OF disjI1]) (auto simp add: Let_def split: sum.splits; blast)
    next
      case True
      note en = True
      show ?thesis
      proof (cases "bsm_trace_type t1 = BSM_TRACE_ORIG")
        case True
        with assms ch c en show ?thesis
          by (intro disjI2 [OF disjI1]) (auto simp add: Let_def split: sum.splits; blast)
      next
        case False
        with ty have nt: "bsm_trace_type t \<noteq> BSM_TRACE_ORIG" by simp
        from assms ch c en False nt show ?thesis
          by (intro disjI2) (auto simp add: Let_def split: sum.splits list.splits; blast)
      qed
    qed
  qed
qed


lemma is_changed_call_index: "is_changed_call j c \<Longrightarrow> call_index c = j"
  by (cases c) simp_all

lemma no_changed_call_below:
  "\<forall>c \<in> set new. i < call_index c \<Longrightarrow> filter (is_changed_call i) new = []"
  by (auto simp add: filter_empty_conv dest: is_changed_call_index)

lemma calls_from_Nil: "calls_from i ts []"
  by (simp add: calls_from_def)

lemma calls_from_unchanged:
  assumes "calls_from (Suc i) ts new"
  shows "calls_from i (t # ts) (Changed_call i False # new)"
proof -
  from assms have idx: "\<forall>c \<in> set new. Suc i \<le> call_index c"
    and cnt: "\<And>j. length (filter (is_changed_call j) new) \<le> 1"
    and wr: "\<And>j. Write_call j True \<in> set new \<Longrightarrow>
               Changed_call j True \<in> set new
               \<or> (Suc i < j \<and> Changed_call (j - 1) True \<in> set new
                   \<and> bsm_trace_type (ts ! (j - 1 - Suc i)) \<noteq> BSM_TRACE_ORIG)"
    by (simp_all add: calls_from_def)
  from idx have none: "filter (is_changed_call i) new = []"
    by (intro no_changed_call_below) auto
  have a: "\<forall>c \<in> set (Changed_call i False # new). i \<le> call_index c"
    using idx by auto
  have b: "length (filter (is_changed_call j) (Changed_call i False # new)) \<le> 1" for j
    using cnt [of j] none by (cases "j = i") simp_all
  have c: "Changed_call j True \<in> set (Changed_call i False # new)
           \<or> (i < j \<and> Changed_call (j - 1) True \<in> set (Changed_call i False # new)
               \<and> bsm_trace_type ((t # ts) ! (j - 1 - i)) \<noteq> BSM_TRACE_ORIG)"
    if "Write_call j True \<in> set (Changed_call i False # new)" for j
  proof -
    from that have "Write_call j True \<in> set new" by simp
    from wr [OF this] show ?thesis
    proof
      assume "Changed_call j True \<in> set new"
      then show ?thesis by simp
    next
      assume h: "Suc i < j \<and> Changed_call (j - 1) True \<in> set new
                 \<and> bsm_trace_type (ts ! (j - 1 - Suc i)) \<noteq> BSM_TRACE_ORIG"
      then have "(t # ts) ! (j - 1 - i) = ts ! (j - 1 - Suc i)"
        by (simp add: nth_Cons')
      with h show ?thesis by simp
    qed
  qed
  from a b c show ?thesis unfolding calls_from_def by blast
qed

lemma calls_from_written:
  assumes "calls_from (Suc i) ts new"
  shows "calls_from i (t # ts) (Changed_call i True # Write_call i b # new)"
proof -
  from assms have idx: "\<forall>c \<in> set new. Suc i \<le> call_index c"
    and cnt: "\<And>j. length (filter (is_changed_call j) new) \<le> 1"
    and wr: "\<And>j. Write_call j True \<in> set new \<Longrightarrow>
               Changed_call j True \<in> set new
               \<or> (Suc i < j \<and> Changed_call (j - 1) True \<in> set new
                   \<and> bsm_trace_type (ts ! (j - 1 - Suc i)) \<noteq> BSM_TRACE_ORIG)"
    by (simp_all add: calls_from_def)
  let ?all = "Changed_call i True # Write_call i b # new"
  from idx have none: "filter (is_changed_call i) new = []"
    by (intro no_changed_call_below) auto
  have a: "\<forall>c \<in> set ?all. i \<le> call_index c"
    using idx by auto
  have b: "length (filter (is_changed_call j) ?all) \<le> 1" for j
    using cnt [of j] none by (cases "j = i") simp_all
  have c: "Changed_call j True \<in> set ?all
           \<or> (i < j \<and> Changed_call (j - 1) True \<in> set ?all
               \<and> bsm_trace_type ((t # ts) ! (j - 1 - i)) \<noteq> BSM_TRACE_ORIG)"
    if "Write_call j True \<in> set ?all" for j
  proof (cases "Write_call j True \<in> set new")
    case False
    with that have "j = i" by simp
    then show ?thesis by simp
  next
    case True
    from wr [OF this] show ?thesis
    proof
      assume "Changed_call j True \<in> set new"
      then show ?thesis by simp
    next
      assume h: "Suc i < j \<and> Changed_call (j - 1) True \<in> set new
                 \<and> bsm_trace_type (ts ! (j - 1 - Suc i)) \<noteq> BSM_TRACE_ORIG"
      then have "(t # ts) ! (j - 1 - i) = ts ! (j - 1 - Suc i)"
        by (simp add: nth_Cons')
      with h show ?thesis by simp
    qed
  qed
  from a b c show ?thesis unfolding calls_from_def by blast
qed

lemma calls_from_valid:
  assumes "calls_from (Suc (Suc i)) ds new" and "bsm_trace_type t \<noteq> BSM_TRACE_ORIG"
  shows "calls_from i (t # d # ds)
           (Changed_call i True # Write_call i False # Write_call (Suc i) True # new)"
proof -
  from assms(1) have idx: "\<forall>c \<in> set new. Suc (Suc i) \<le> call_index c"
    and cnt: "\<And>j. length (filter (is_changed_call j) new) \<le> 1"
    and wr: "\<And>j. Write_call j True \<in> set new \<Longrightarrow>
               Changed_call j True \<in> set new
               \<or> (Suc (Suc i) < j \<and> Changed_call (j - 1) True \<in> set new
                   \<and> bsm_trace_type (ds ! (j - 1 - Suc (Suc i))) \<noteq> BSM_TRACE_ORIG)"
    by (simp_all add: calls_from_def)
  let ?all = "Changed_call i True # Write_call i False # Write_call (Suc i) True # new"
  from idx have none: "filter (is_changed_call i) new = []"
    by (intro no_changed_call_below) auto
  have a: "\<forall>c \<in> set ?all. i \<le> call_index c"
    using idx by auto
  have b: "length (filter (is_changed_call j) ?all) \<le> 1" for j
    using cnt [of j] none by (cases "j = i") simp_all
  have c: "Changed_call j True \<in> set ?all
           \<or> (i < j \<and> Changed_call (j - 1) True \<in> set ?all
               \<and> bsm_trace_type ((t # d # ds) ! (j - 1 - i)) \<noteq> BSM_TRACE_ORIG)"
    if "Write_call j True \<in> set ?all" for j
  proof (cases "Write_call j True \<in> set new")
    case False
    with that have "j = Suc i" by simp
    with assms(2) show ?thesis by simp
  next
    case True
    from wr [OF this] show ?thesis
    proof
      assume "Changed_call j True \<in> set new"
      then show ?thesis by simp
    next
      assume h: "Suc (Suc i) < j \<and> Changed_call (j - 1) True \<in> set new
                 \<and> bsm_trace_type (ds ! (j - 1 - Suc (Suc i))) \<noteq> BSM_TRACE_ORIG"
      then have "(t # d # ds) ! (j - 1 - i) = ds ! (j - 1 - Suc (Suc i))"
        by (simp add: nth_Cons' numeral_2_eq_2)
      with h show ?thesis by simp
    qed
  qed
  from a b c show ?thesis unfolding calls_from_def by blast
qed

text \<open>The loop only appends to the calls, and what it appends from index \<open>i\<close> on is as described.\<close>

lemma cycle_loop_calls:
  "cycle_loop tf k i ts st = Inr (ts', st') \<Longrightarrow>
   \<exists>new. snd (snd st') = snd (snd st) @ new \<and> calls_from i ts new"
proof (induction ts arbitrary: i st ts' st' rule: length_induct)
  case (1 ts)
  obtain out tp calls where st: "st = (out, tp, calls)" by (cases st)
  show ?case
  proof (cases ts)
    case Nil
    with 1(2) show ?thesis by (simp add: cycle_loop.simps calls_from_Nil)
  next
    case (Cons t rest)
    from 1(2) have run: "cycle_loop tf k i (t # rest) (out, tp, calls) = Inr (ts', st')"
      by (simp add: Cons st)
    from cycle_loop_step [OF run] consider
      (unchanged) ts1 where
        "cycle_loop tf k (Suc i) rest (out, tp, calls @ [Changed_call i False]) = Inr (ts1, st')"
    | (written) b out1 tp1 ts1 where
        "cycle_loop tf k (Suc i) rest (out1, tp1, calls @ [Changed_call i True, Write_call i b]) = Inr (ts1, st')"
    | (valid) d ds out1 tp1 ds1 where "rest = d # ds" "bsm_trace_type t \<noteq> BSM_TRACE_ORIG"
        "cycle_loop tf k (Suc (Suc i)) ds
           (out1, tp1, calls @ [Changed_call i True, Write_call i False, Write_call (Suc i) True]) = Inr (ds1, st')"
      by auto
    then show ?thesis
    proof cases
      case unchanged
      have "length rest < length ts" by (simp add: Cons)
      with 1(1) unchanged obtain new where
        "snd (snd st') = (calls @ [Changed_call i False]) @ new" "calls_from (Suc i) rest new"
        by fastforce
      then show ?thesis
        using calls_from_unchanged [of i rest new t] by (simp add: st Cons)
    next
      case written
      have "length rest < length ts" by (simp add: Cons)
      with 1(1) written obtain new where
        "snd (snd st') = (calls @ [Changed_call i True, Write_call i b]) @ new"
        "calls_from (Suc i) rest new"
        by fastforce
      then show ?thesis
        using calls_from_written [of i rest new t b] by (simp add: st Cons)
    next
      case valid
      have "length ds < length ts" by (simp add: Cons valid(1))
      with 1(1) valid(3) obtain new where
        "snd (snd st') = (calls @ [Changed_call i True, Write_call i False, Write_call (Suc i) True]) @ new"
        "calls_from (Suc (Suc i)) ds new"
        by fastforce
      then show ?thesis
        using calls_from_valid [of i ds new t d] valid(2) by (simp add: st Cons valid(1))
    qed
  qed
qed

text \<open>
  Claim C7, as amended. In one call of \<open>cycle\<close> the printing loop calls \<open>changed()\<close> at
  most once on each registered trace, and it writes a trace to the file only if that
  trace's own \<open>changed()\<close> answered true in this call, or the trace stands right behind a
  trace whose type is not \<open>BSM_TRACE_ORIG\<close> (a "valid" signal) and whose \<open>changed()\<close>
  answered true in this call.
\<close>

theorem cycle_samples_once:
  assumes "cycle k d tf = Inr (tf', calls)"
  shows "(\<forall>j. length (filter (is_changed_call j) calls) \<le> 1)
    \<and> (\<forall>j. Write_call j True \<in> set calls \<longrightarrow>
           Changed_call j True \<in> set calls
           \<or> (0 < j \<and> Changed_call (j - 1) True \<in> set calls
               \<and> bsm_trace_type (traces tf ! (j - 1)) \<noteq> BSM_TRACE_ORIG))"
proof -
  have "calls_from 0 (traces tf) calls"
  proof (cases "calls = []")
    case True
    then show ?thesis by (simp add: calls_from_Nil)
  next
    case False
    with assms obtain ts' out tp where
      "cycle_loop tf k 0 (traces tf) ([], False, []) = Inr (ts', out, tp, calls)"
      by (auto simp add: cycle_def initialize_def Let_def split: if_splits sum.splits prod.splits bool.splits)
    from cycle_loop_calls [OF this] show ?thesis by simp
  qed
  then show ?thesis by (simp add: calls_from_def)
qed

theorem cycle_samples_once_witness:
  "cycle valid_risen False valid_data_file
     = Inr (valid_data_file
              \<lparr>traces := [(bsm_bool_trace objects0 0 ''valid'' ''aaaaa'' BT_SIMPLE BSM_TRIGGER_VAL_BOTH)
                            \<lparr>bsm_trace_type := BSM_TRACE_VAL, body := Bool_trace 0 True\<rparr>,
                          bsm_bool_trace objects0 1 ''data'' ''aaaab'' BT_SIMPLE BSM_TRIGGER_VAL_BOTH],
               fp := ''0'' @ [newline]\<rparr>,
            [Changed_call 0 True, Write_call 0 False, Write_call 1 True])
   \<and> length (filter (is_changed_call 0) [Changed_call 0 True, Write_call 0 False, Write_call 1 True]) \<le> 1
   \<and> bsm_trace_type (traces valid_data_file ! 0) \<noteq> BSM_TRACE_ORIG"
proof -
  have run: "cycle valid_risen False valid_data_file
     = Inr (valid_data_file
              \<lparr>traces := [(bsm_bool_trace objects0 0 ''valid'' ''aaaaa'' BT_SIMPLE BSM_TRIGGER_VAL_BOTH)
                            \<lparr>bsm_trace_type := BSM_TRACE_VAL, body := Bool_trace 0 True\<rparr>,
                          bsm_bool_trace objects0 1 ''data'' ''aaaab'' BT_SIMPLE BSM_TRIGGER_VAL_BOTH],
               fp := ''0'' @ [newline]\<rparr>,
            [Changed_call 0 True, Write_call 0 False, Write_call 1 True])"
    by (simp add: cycle_def initialize_def valid_data_file_def valid_risen_def kernel_at_def
          bsm_trace_file_new_def get_time_stamp_def cycle_loop.simps changed_def trace_write_def
          bsm_bool_trace_def bsm_trace_base_def objects0_def TRACE_CHANGED_IMPLEMENT_def
          is_print_vcd_def BSM_TRIGGER_VAL_BOTH_def BSM_TRIGGER_VAL_POS_def BSM_TRIGGER_VAL_NEG_def
          BSM_TRACE_VAL_def BSM_TRACE_ORIG_def BT_SIMPLE_def BT_VCD_def Let_def)
  show ?thesis
    using cycle_samples_once [OF run] run
    by (simp add: valid_data_file_def BSM_TRACE_VAL_def BSM_TRACE_ORIG_def)
qed

text \<open>
  The same call against the claim as first stated: the second trace is written to the
  file (the text \<open>0\<close> and a newline) although the loop never asked its \<open>changed()\<close>.
\<close>

theorem cycle_valid_signal_counterexample:
  "(case cycle valid_risen False valid_data_file of
      Inl e \<Rightarrow> False
    | Inr (tf', calls) \<Rightarrow>
        Write_call 1 True \<in> set calls
        \<and> filter (is_changed_call 1) calls = []
        \<and> fp tf' = ''0'' @ [newline])"
  by (simp add: cycle_def initialize_def valid_data_file_def valid_risen_def kernel_at_def
        bsm_trace_file_new_def get_time_stamp_def cycle_loop.simps changed_def trace_write_def
        bsm_bool_trace_def bsm_trace_base_def objects0_def TRACE_CHANGED_IMPLEMENT_def
        is_print_vcd_def BSM_TRIGGER_VAL_BOTH_def BSM_TRIGGER_VAL_POS_def BSM_TRIGGER_VAL_NEG_def
        BSM_TRACE_VAL_def BSM_TRACE_ORIG_def BT_SIMPLE_def BT_VCD_def Let_def)

end
